theory Spec2Isabelle
  imports Main "HOL-Library.Sublist"
begin

section \<open>Paths\<close>

text \<open>
  The program handles paths only through Node's \<open>path\<close> module
  (\<open>path.resolve\<close>, \<open>path.basename\<close>, \<open>path.join\<close>).  An absolute,
  normalised POSIX path is modelled as the list of its components below the
  root directory; the root itself is the empty list.
\<close>

type_synonym path = "string list"

fun split_on :: "char \<Rightarrow> string \<Rightarrow> string list" where
  "split_on c [] = [[]]"
| "split_on c (x # xs) =
     (if x = c then [] # split_on c xs
      else (case split_on c xs of
              [] \<Rightarrow> [[x]]
            | w # ws \<Rightarrow> (x # w) # ws))"

text \<open>
  Normalisation as \<open>path.resolve\<close> performs it: empty segments and \<open>.\<close> are
  dropped, \<open>..\<close> removes the last component (and stays at the root).
\<close>

fun resolve_segments :: "path \<Rightarrow> string list \<Rightarrow> path" where
  "resolve_segments acc [] = acc"
| "resolve_segments acc (seg # segs) =
     (if seg = [] \<or> seg = ''.'' then resolve_segments acc segs
      else if seg = ''..'' then resolve_segments (butlast acc) segs
      else resolve_segments (acc @ [seg]) segs)"

definition path_resolve :: "path \<Rightarrow> string \<Rightarrow> path" where
  "path_resolve wd name =
     (case name of
        [] \<Rightarrow> wd
      | c # _ \<Rightarrow>
          if c = CHR ''/'' then resolve_segments [] (split_on CHR ''/'' name)
          else resolve_segments wd (split_on CHR ''/'' name))"

definition path_basename :: "path \<Rightarrow> string" where
  "path_basename p = (case rev p of [] \<Rightarrow> [] | n # _ \<Rightarrow> n)"

definition path_join :: "path \<Rightarrow> string \<Rightarrow> path" where
  "path_join p n = p @ [n]"

section \<open>File system, template tree, manifest data\<close>

datatype node = File string | Dir

text \<open>
  The file system is a finite table from paths to nodes, with one entry for a
  path at most.
\<close>

type_synonym filesystem = "(path \<times> node) list"

definition fs_lookup :: "filesystem \<Rightarrow> path \<Rightarrow> node option" where
  "fs_lookup f p = map_of f p"

definition fs_remove :: "path \<Rightarrow> filesystem \<Rightarrow> filesystem" where
  "fs_remove p f = filter (\<lambda>e. fst e \<noteq> p) f"

definition fs_write :: "path \<Rightarrow> node \<Rightarrow> filesystem \<Rightarrow> filesystem" where
  "fs_write p n f = (p, n) # fs_remove p f"

datatype tree = TFile string | TDir "(string \<times> tree) list"

datatype json =
    JNull
  | JBool bool
  | JNum string
  | JStr string
  | JArr "json list"
  | JObj "(string \<times> json) list"

datatype err =
    ENOTDIR path
  | ENOENT path
  | EISDIR path
  | ENOTEMPTY path
  | CopyConflict path
  | ModuleNotFound path
  | SyntaxError path
  | TypeError string
  | ExecFailed string
  | CommandFailed string

text \<open>
  The relative listing of a directory tree: every entry with its path below
  the directory, a directory before its contents.
\<close>

fun entries :: "path \<Rightarrow> tree \<Rightarrow> (path \<times> node) list"
  and children :: "path \<Rightarrow> (string \<times> tree) list \<Rightarrow> (path \<times> node) list" where
  "entries p (TFile c) = [(p, File c)]"
| "entries p (TDir kids) = (p, Dir) # children p kids"
| "children p [] = []"
| "children p ((n, t) # kids) = entries (p @ [n]) t @ children p kids"

definition listing :: "(string \<times> tree) list \<Rightarrow> (path \<times> node) list" where
  "listing kids = children [] kids"

text \<open>A directory names each of its entries once, so no path is listed twice.\<close>

definition wf_template :: "(string \<times> tree) list \<Rightarrow> bool" where
  "wf_template kids = distinct (map fst (listing kids))"

subsection \<open>fs-extra operations\<close>

text \<open>
  \<open>fs.ensureDir\<close>: creates the directory and every missing ancestor; fails,
  creating nothing, when a component of the path is a regular file.
\<close>

definition is_file :: "node option \<Rightarrow> bool" where
  "is_file x = (case x of Some (File _) \<Rightarrow> True | _ \<Rightarrow> False)"

definition mkdir_missing :: "path \<Rightarrow> filesystem \<Rightarrow> filesystem" where
  "mkdir_missing q f = (if fs_lookup f q = None then fs_write q Dir f else f)"

definition ensureDir :: "path \<Rightarrow> filesystem \<Rightarrow> err option \<times> filesystem" where
  "ensureDir dir f =
     (case find (\<lambda>q. is_file (fs_lookup f q)) (prefixes dir) of
        Some q \<Rightarrow> (Some (ENOTDIR q), f)
      | None \<Rightarrow> (None, fold mkdir_missing (prefixes dir) f))"

text \<open>
  \<open>fs.copy\<close> of a directory tree, overwriting files that exist.  A file is
  never written over a directory nor a directory over a file; what was written
  before such a conflict stays.
\<close>

fun copy_tree :: "tree \<Rightarrow> path \<Rightarrow> filesystem \<Rightarrow> err option \<times> filesystem"
  and copy_children :: "(string \<times> tree) list \<Rightarrow> path \<Rightarrow> filesystem \<Rightarrow> err option \<times> filesystem" where
  "copy_tree (TFile c) dest f =
     (case fs_lookup f dest of
        Some Dir \<Rightarrow> (Some (CopyConflict dest), f)
      | _ \<Rightarrow> (None, fs_write dest (File c) f))"
| "copy_tree (TDir kids) dest f =
     (case fs_lookup f dest of
        Some (File _) \<Rightarrow> (Some (CopyConflict dest), f)
      | _ \<Rightarrow> copy_children kids dest (fs_write dest Dir f))"
| "copy_children [] dest f = (None, f)"
| "copy_children ((n, t) # kids) dest f =
     (case copy_tree t (dest @ [n]) f of
        (Some e, f') \<Rightarrow> (Some e, f')
      | (None, f') \<Rightarrow> copy_children kids dest f')"

definition copy :: "(string \<times> tree) list \<Rightarrow> path \<Rightarrow> filesystem \<Rightarrow> err option \<times> filesystem" where
  "copy tpl dest f = copy_tree (TDir tpl) dest f"

text \<open>
  \<open>fs.renameSync\<close> between two siblings.  A file replaces a file; a
  directory moves with all that is below it and may replace an empty directory
  only.
\<close>

definition move_subtree :: "path \<Rightarrow> path \<Rightarrow> filesystem \<Rightarrow> filesystem" where
  "move_subtree src dst f =
     map (\<lambda>e. (dst @ drop (length src) (fst e), snd e)) (filter (\<lambda>e. prefix src (fst e)) f)
     @ filter (\<lambda>e. \<not> prefix src (fst e) \<and> fst e \<noteq> dst) f"

definition renameSync :: "path \<Rightarrow> path \<Rightarrow> filesystem \<Rightarrow> err option \<times> filesystem" where
  "renameSync src dst f =
     (case fs_lookup f src of
        None \<Rightarrow> (Some (ENOENT src), f)
      | Some (File c) \<Rightarrow>
          (case fs_lookup f dst of
             Some Dir \<Rightarrow> (Some (EISDIR dst), f)
           | _ \<Rightarrow> (None, fs_write dst (File c) (fs_remove src f)))
      | Some Dir \<Rightarrow>
          (case fs_lookup f dst of
             Some (File _) \<Rightarrow> (Some (ENOTDIR dst), f)
           | _ \<Rightarrow>
               if list_ex (\<lambda>e. strict_prefix dst (fst e)) f then (Some (ENOTEMPTY dst), f)
               else (None, move_subtree src dst f)))"

subsection \<open>The manifest as structured data\<close>

text \<open>
  Property assignment on a plain object: an existing key keeps its position,
  a new key goes last.
\<close>

fun set_prop :: "string \<Rightarrow> json \<Rightarrow> (string \<times> json) list \<Rightarrow> (string \<times> json) list" where
  "set_prop k v [] = [(k, v)]"
| "set_prop k v ((k', v') # kvs) =
     (if k' = k then (k, v) # kvs else (k', v') # set_prop k v kvs)"

text \<open>
  \<open>packageJson.name = name\<close> in strict mode, as seen by the later
  \<open>JSON.stringify\<close>: an object gets the property; an array gets it too, but
  serialisation of an array ignores named properties; \<open>null\<close> and primitive
  values raise a TypeError.
\<close>

fun assign_name :: "json \<Rightarrow> string \<Rightarrow> err + json" where
  "assign_name (JObj kvs) name = Inr (JObj (set_prop ''name'' (JStr name) kvs))"
| "assign_name (JArr xs) name = Inr (JArr xs)"
| "assign_name _ name = Inl (TypeError ''name'')"

section \<open>The process and its environment\<close>

text \<open>
  The result object of the \<open>validate-npm-package-name\<close> package; its
  \<open>errors\<close> and \<open>warnings\<close> properties may be undefined.
\<close>

record validation =
  validForNewPackages :: bool
  errors :: "string list option"
  warnings :: "string list option"

text \<open>
  What the run does not decide itself: the packages and programs it calls and
  the line typed at the prompt; \<open>answer\<close> is \<open>None\<close> when the input ends
  before a line is read.  \<open>projectName\<close> of the source is the
  argument of \<open>script_index\<close> below; the template directory is
  \<open>path.resolve(__dirname, 'template')\<close>.
\<close>

record env =
  validateProjectName :: "string \<Rightarrow> validation"
  json_parse :: "string \<Rightarrow> json option"
  json_stringify :: "json \<Rightarrow> string"
  template :: "(string \<times> tree) list"
  program_name :: string
  yarnpkg_ok :: bool
  git_init_ok :: bool
  answer :: "string option"
  close_code :: "int option"

text \<open>
  Console lines, one constructor for each place of the source that prints
  (colours are left out).
\<close>

datatype msg =
    SpecifyDirectory
  | UsageExample string
  | NamingRestrictions string
  | ViolationLine string
  | GitInitialized
  | AlreadyExists string
  | ProjectCreated string
  | InstallStarting
  | ErrorBanner
  | ErrorValue err
  | SuccessMessage path string bool

datatype event =
    Stdout msg
  | Stderr msg
  | ExecSync string
  | Question string
  | Spawn string "string list option" path

record state =
  fs :: filesystem
  cwd :: path
  trace :: "event list"

text \<open>
  How a stage ends: it completes (a promise resolves, a call returns), a
  promise rejects, \<open>process.exit\<close> is called, an exception escapes every
  handler, or the promise never settles.
\<close>

datatype settled = Resolved | Rejected err | Exited int | Uncaught err | Pending

text \<open>
  The exit code of the process: the argument of \<open>process.exit\<close>, 1 when Node
  ends on an uncaught exception, and 0 when the program runs to its end (a
  rejection nobody handles is reported by the promise library and leaves the
  code at 0; with a promise that never settles Node ends once nothing is left
  to wait for, also with 0).
\<close>

definition exit_code :: "settled \<Rightarrow> int" where
  "exit_code r =
     (case r of
        Resolved \<Rightarrow> 0
      | Rejected _ \<Rightarrow> 0
      | Exited c \<Rightarrow> c
      | Uncaught _ \<Rightarrow> 1
      | Pending \<Rightarrow> 0)"

definition say :: "event \<Rightarrow> state \<Rightarrow> state" where
  "say e s = s\<lparr>trace := trace s @ [e]\<rparr>"

text \<open>
  \<open>.then\<close> runs its callback on a resolved promise only, \<open>.catch\<close> on a
  rejected one; a chain of \<open>.then\<close> calls is the list of its callbacks.  A
  \<open>process.exit\<close> or an uncaught exception ends the process, so nothing
  after it runs; nor does anything run after a promise that never settles.
\<close>

definition then_do :: "settled \<times> state \<Rightarrow> (state \<Rightarrow> settled \<times> state) \<Rightarrow> settled \<times> state" where
  "then_do r k = (case r of (Resolved, s) \<Rightarrow> k s | _ \<Rightarrow> r)"

definition catch_do :: "settled \<times> state \<Rightarrow> (err \<Rightarrow> state \<Rightarrow> settled \<times> state) \<Rightarrow> settled \<times> state" where
  "catch_do r h = (case r of (Rejected e, s) \<Rightarrow> h e s | _ \<Rightarrow> r)"

fun chain :: "(state \<Rightarrow> settled \<times> state) list \<Rightarrow> state \<Rightarrow> settled \<times> state" where
  "chain [] s = (Resolved, s)"
| "chain (k # ks) s = then_do (k s) (chain ks)"

text \<open>A file-system call as a stage: its error is the rejection.\<close>

definition fs_step :: "(filesystem \<Rightarrow> err option \<times> filesystem) \<Rightarrow> state \<Rightarrow> settled \<times> state" where
  "fs_step op s =
     (case op (fs s) of
        (None, f) \<Rightarrow> (Resolved, s\<lparr>fs := f\<rparr>)
      | (Some e, f) \<Rightarrow> (Rejected e, s\<lparr>fs := f\<rparr>))"

definition chdir :: "path \<Rightarrow> state \<Rightarrow> settled \<times> state" where
  "chdir dir s =
     (case fs_lookup (fs s) dir of
        Some Dir \<Rightarrow> (Resolved, s\<lparr>cwd := dir\<rparr>)
      | Some (File _) \<Rightarrow> (Rejected (ENOTDIR dir), s)
      | None \<Rightarrow> (Rejected (ENOENT dir), s))"

section \<open>The functions of the source\<close>

text \<open>
  \<open>printValidationResults\<close>, \<open>checkAppName\<close>, \<open>validateDir\<close> and
  \<open>saveProjectName\<close> have the same text in every file that contains them.
\<close>

definition printValidationResults :: "string list option \<Rightarrow> state \<Rightarrow> state" where
  "printValidationResults results s =
     (case results of
        None \<Rightarrow> s
      | Some rs \<Rightarrow> s\<lparr>trace := trace s @ map (\<lambda>e. Stderr (ViolationLine e)) rs\<rparr>)"

definition checkAppName :: "env \<Rightarrow> string \<Rightarrow> state \<Rightarrow> settled \<times> state" where
  "checkAppName env appName s =
     (let validationResult = validateProjectName env appName in
      if \<not> validForNewPackages validationResult then
        (Exited 1,
         printValidationResults (warnings validationResult)
           (printValidationResults (errors validationResult)
              (say (Stderr (NamingRestrictions appName)) s)))
      else (Resolved, s))"

definition shouldUseYarn :: "env \<Rightarrow> state \<Rightarrow> bool \<times> state" where
  "shouldUseYarn env s = (yarnpkg_ok env, say (ExecSync ''yarnpkg --version'') s)"

text \<open>
  \<open>git init\<close> runs in the working directory; of what it creates only the
  repository directory itself is recorded.
\<close>

definition initGit :: "env \<Rightarrow> state \<Rightarrow> settled \<times> state" where
  "initGit env s =
     (let s' = say (ExecSync ''git init'') s; repo = path_join (cwd s) ''.git'' in
      if git_init_ok env then
        (Resolved, s'\<lparr>fs := mkdir_missing repo (fs s)\<rparr>)
      else (Rejected (ExecFailed ''git init''), s'))"

text \<open>
  In the directory branch the promise is resolved, or the process exited, only
  inside the callback of \<open>rl.question\<close>.  readline calls it with the line
  that was typed; when the input ends before a line is read the callback is
  never called and the promise stays pending.
\<close>

definition validateDir :: "env \<Rightarrow> path \<Rightarrow> string \<Rightarrow> state \<Rightarrow> settled \<times> state" where
  "validateDir env dir appName s =
     (case fs_lookup (fs s) dir of
        None \<Rightarrow> fs_step (ensureDir dir) s
      | Some Dir \<Rightarrow>
          (let s' = say (Question appName) s in
           case answer env of
             None \<Rightarrow> (Pending, s')
           | Some line \<Rightarrow>
               if line = [] \<or> line \<noteq> ''y'' then (Exited 1, s')
               else (Resolved, s'))
      | Some (File _) \<Rightarrow> (Exited 1, say (Stderr (AlreadyExists appName)) s))"

fun join_with :: "string \<Rightarrow> string list \<Rightarrow> string" where
  "join_with sep [] = []"
| "join_with sep [x] = x"
| "join_with sep (x # y # ys) = x @ sep @ join_with sep (y # ys)"

text \<open>
  The \<open>close\<close> listener of the spawned child: \<open>args.join\<close> is evaluated
  before \<open>reject\<close> is called, and \<open>args\<close> is undefined unless the npm branch
  assigned it.  An exception thrown in the listener is outside the promise.
\<close>

definition on_close :: "env \<Rightarrow> string \<Rightarrow> string list option \<Rightarrow> state \<Rightarrow> settled \<times> state" where
  "on_close env command args s =
     (if close_code env \<noteq> Some 0 then
        (case args of
           None \<Rightarrow> (Uncaught (TypeError ''join''), s)
         | Some as \<Rightarrow> (Rejected (CommandFailed (command @ '' '' @ join_with '' '' as)), s))
      else (Resolved, s))"

definition installDependencies :: "env \<Rightarrow> bool \<Rightarrow> state \<Rightarrow> settled \<times> state" where
  "installDependencies env useYarn s =
     (let command = (if useYarn then ''yarn'' else ''npm'');
          args = (if useYarn then None else Some [''install''])
      in on_close env command args (say (Spawn command args (cwd s)) s))"

text \<open>The same function in part_001: it takes the root and never uses yarn.\<close>

definition installDependencies_part_001 :: "env \<Rightarrow> path \<Rightarrow> state \<Rightarrow> settled \<times> state" where
  "installDependencies_part_001 env root s =
     then_do (chdir root s) (\<lambda>s.
       let useYarn = False;
           command = (if useYarn then ''yarn'' else ''npm'');
           args = (if useYarn then None else Some [''install''])
       in on_close env command args (say (Spawn command args (cwd s)) s))"

text \<open>
  \<open>require(filePath)\<close> reads and parses the file at exactly that path
  (the module cache and the other candidates of module resolution are left
  out); \<open>fs.writeJson\<close> writes \<open>JSON.stringify\<close> with four spaces.
\<close>

definition saveProjectName :: "env \<Rightarrow> path \<Rightarrow> string \<Rightarrow> state \<Rightarrow> settled \<times> state" where
  "saveProjectName env root name s =
     (let filePath = path_join root ''package.json'' in
      case fs_lookup (fs s) filePath of
        Some (File text) \<Rightarrow>
          (case json_parse env text of
             None \<Rightarrow> (Rejected (SyntaxError filePath), s)
           | Some packageJson \<Rightarrow>
               (case assign_name packageJson name of
                  Inl e \<Rightarrow> (Rejected e, s)
                | Inr packageJson' \<Rightarrow>
                    (Resolved, s\<lparr>fs := fs_write filePath (File (json_stringify env packageJson')) (fs s)\<rparr>)))
      | _ \<Rightarrow> (Rejected (ModuleNotFound filePath), s))"

definition showSuccessMessage :: "path \<Rightarrow> string \<Rightarrow> bool \<Rightarrow> state \<Rightarrow> state" where
  "showSuccessMessage root appName useYarn s = say (Stdout (SuccessMessage root appName useYarn)) s"

text \<open>The handler of \<open>.catch\<close>: it prints and returns, so the chain resolves.\<close>

definition report_error :: "err \<Rightarrow> state \<Rightarrow> settled \<times> state" where
  "report_error e s = (Resolved, say (Stderr (ErrorValue e)) (say (Stdout ErrorBanner) s))"

subsection \<open>index.js\<close>

definition createApp :: "env \<Rightarrow> string \<Rightarrow> state \<Rightarrow> settled \<times> state" where
  "createApp env name s =
     (let root = path_resolve (cwd s) name;
          appName = path_basename root;
          (useYarn, s1) = shouldUseYarn env s
      in then_do (checkAppName env appName s1) (\<lambda>s2.
           catch_do
             (chain
                [validateDir env root appName,
                 (\<lambda>s. then_do (chdir root s) (\<lambda>s. then_do (initGit env s)
                    (\<lambda>s. (Resolved, say (Stdout GitInitialized) s)))),
                 (\<lambda>s. then_do (fs_step (copy (template env) root) s)
                    (fs_step (renameSync (path_join root ''.npmignore'') (path_join root ''.gitignore'')))),
                 saveProjectName env root appName,
                 (\<lambda>s. installDependencies env useYarn
                    (say (Stdout InstallStarting) (say (Stdout (ProjectCreated appName)) s))),
                 (\<lambda>s. (Resolved, showSuccessMessage root appName useYarn s))]
                s2)
             report_error))"

definition usage :: "env \<Rightarrow> state \<Rightarrow> settled \<times> state" where
  "usage env s =
     (Exited 1, say (Stdout (UsageExample (program_name env))) (say (Stderr SpecifyDirectory) s))"

definition script_index :: "env \<Rightarrow> string option \<Rightarrow> state \<Rightarrow> settled \<times> state" where
  "script_index env projectName s =
     (case projectName of None \<Rightarrow> usage env s | Some name \<Rightarrow> createApp env name s)"

subsection \<open>part_000: validation only\<close>

definition createApp_part_000 :: "env \<Rightarrow> string \<Rightarrow> state \<Rightarrow> settled \<times> state" where
  "createApp_part_000 env name s =
     (let root = path_resolve (cwd s) name;
          appName = path_basename root
      in checkAppName env appName s)"

definition script_part_000 :: "env \<Rightarrow> string option \<Rightarrow> state \<Rightarrow> settled \<times> state" where
  "script_part_000 env projectName s =
     (case projectName of None \<Rightarrow> usage env s | Some name \<Rightarrow> createApp_part_000 env name s)"

subsection \<open>part_001: no git, npm only\<close>

definition createApp_part_001 :: "env \<Rightarrow> string \<Rightarrow> state \<Rightarrow> settled \<times> state" where
  "createApp_part_001 env name s =
     (let root = path_resolve (cwd s) name;
          appName = path_basename root
      in then_do (checkAppName env appName s) (\<lambda>s2.
           catch_do
             (chain
                [validateDir env root appName,
                 fs_step (copy (template env) root),
                 saveProjectName env root appName,
                 installDependencies_part_001 env root]
                s2)
             report_error))"

definition script_part_001 :: "env \<Rightarrow> string option \<Rightarrow> state \<Rightarrow> settled \<times> state" where
  "script_part_001 env projectName s =
     (case projectName of None \<Rightarrow> usage env s | Some name \<Rightarrow> createApp_part_001 env name s)"

section \<open>Observations on a run\<close>

text \<open>The violation lines among the console output so far.\<close>

fun violation_of :: "event \<Rightarrow> string list" where
  "violation_of (Stderr (ViolationLine e)) = [e]"
| "violation_of _ = []"

definition violations :: "state \<Rightarrow> string list" where
  "violations s = concat (map violation_of (trace s))"

text \<open>
  What the validation package guarantees about its result: the lists it
  returns are not empty, and a name is valid for new packages exactly when
  both are absent.
\<close>

definition well_formed_result :: "validation \<Rightarrow> bool" where
  "well_formed_result v \<longleftrightarrow>
     errors v \<noteq> Some [] \<and> warnings v \<noteq> Some [] \<and>
     (validForNewPackages v \<longleftrightarrow> errors v = None \<and> warnings v = None)"

text \<open>A single path component that \<open>path.resolve\<close> keeps as it is.\<close>

definition plain_component :: "string \<Rightarrow> bool" where
  "plain_component b \<longleftrightarrow> b \<noteq> [] \<and> b \<noteq> ''.'' \<and> b \<noteq> ''..'' \<and> CHR ''/'' \<notin> set b"

text \<open>
  A stage settles when it can only resolve or reject, and stays when it never
  calls \<open>process.exit\<close> and never leaves its promise pending.
\<close>

definition settles :: "(state \<Rightarrow> settled \<times> state) \<Rightarrow> bool" where
  "settles k \<longleftrightarrow> (\<forall>s. fst (k s) = Resolved \<or> (\<exists>e. fst (k s) = Rejected e))"

fun runs_on :: "settled \<Rightarrow> bool" where
  "runs_on (Exited c) = False"
| "runs_on Pending = False"
| "runs_on _ = True"

definition stays :: "(state \<Rightarrow> settled \<times> state) \<Rightarrow> bool" where
  "stays k \<longleftrightarrow> (\<forall>s. runs_on (fst (k s)))"

text \<open>
  The writes of \<open>copy_tree\<close>, one for each entry of the listing, in the
  order of the listing.
\<close>

fun copy_entry :: "path \<times> node \<Rightarrow> filesystem \<Rightarrow> err option \<times> filesystem" where
  "copy_entry (p, File c) f =
     (case fs_lookup f p of
        Some Dir \<Rightarrow> (Some (CopyConflict p), f)
      | _ \<Rightarrow> (None, fs_write p (File c) f))"
| "copy_entry (p, Dir) f =
     (case fs_lookup f p of
        Some (File _) \<Rightarrow> (Some (CopyConflict p), f)
      | _ \<Rightarrow> (None, fs_write p Dir f))"

fun copy_entries :: "(path \<times> node) list \<Rightarrow> filesystem \<Rightarrow> err option \<times> filesystem" where
  "copy_entries [] f = (None, f)"
| "copy_entries (e # es) f =
     (case copy_entry e f of
        (Some x, f') \<Rightarrow> (Some x, f')
      | (None, f') \<Rightarrow> copy_entries es f')"

text \<open>
  A run is successful when it ends normally and the terminal handler has
  printed nothing.
\<close>

definition successful :: "settled \<times> state \<Rightarrow> bool" where
  "successful r \<longleftrightarrow> fst r = Resolved \<and> Stdout ErrorBanner \<notin> set (trace (snd r))"

text \<open>
  The target holds the template: it is a directory, and every entry of the
  template is found below it, the manifest as a regular file and every other
  entry as it is in the template.
\<close>

definition template_preserved :: "(string \<times> tree) list \<Rightarrow> path \<Rightarrow> filesystem \<Rightarrow> bool" where
  "template_preserved tpl root f \<longleftrightarrow>
     fs_lookup f root = Some Dir \<and>
     (\<forall>(rel, n) \<in> set (listing tpl).
        if rel = [''package.json''] then is_file (fs_lookup f (root @ rel))
        else fs_lookup f (root @ rel) = Some n)"

text \<open>
  The same with the rename of index.js: entries at or below \<open>.npmignore\<close> and
  \<open>.gitignore\<close> are left out, nothing is at \<open>.npmignore\<close>, and a file
  \<open>.npmignore\<close> of the template is found at \<open>.gitignore\<close>.
\<close>

definition template_preserved_renamed :: "(string \<times> tree) list \<Rightarrow> path \<Rightarrow> filesystem \<Rightarrow> bool" where
  "template_preserved_renamed tpl root f \<longleftrightarrow>
     fs_lookup f root = Some Dir \<and>
     (\<forall>(rel, n) \<in> set (listing tpl).
        if rel = [''package.json''] then is_file (fs_lookup f (root @ rel))
        else \<not> prefix [''.npmignore''] rel \<and> \<not> prefix [''.gitignore''] rel
          \<longrightarrow> fs_lookup f (root @ rel) = Some n) \<and>
     fs_lookup f (root @ [''.npmignore'']) = None \<and>
     (\<forall>(rel, n) \<in> set (listing tpl).
        rel = [''.npmignore''] \<and> n \<noteq> Dir \<longrightarrow> fs_lookup f (root @ [''.gitignore'']) = Some n)"

section \<open>A concrete environment\<close>

text \<open>
  A small instance of everything the run depends on, for evaluating the
  functions above: a validator that accepts non-empty names of lower-case
  letters, digits and hyphens, a manifest reader that knows one text, a
  template of three files, and a home directory holding a directory
  \<open>old\<close> and a file \<open>notes\<close>.
\<close>

definition demo_validate :: "string \<Rightarrow> validation" where
  "demo_validate name =
     (if name \<noteq> [] \<and> list_all (\<lambda>c. c \<in> set ''abcdefghijklmnopqrstuvwxyz0123456789-'') name
      then \<lparr>validForNewPackages = True, errors = None, warnings = None\<rparr>
      else \<lparr>validForNewPackages = False,
             errors = Some [''name can only contain URL-friendly characters''],
             warnings = None\<rparr>)"

definition demo_parse :: "string \<Rightarrow> json option" where
  "demo_parse text =
     (if text = ''name=template;version=0.1.0;''
      then Some (JObj [(''name'', JStr ''template''), (''version'', JStr ''0.1.0'')])
      else None)"

fun demo_stringify :: "json \<Rightarrow> string" where
  "demo_stringify (JObj kvs) =
     concat (map (\<lambda>(k, v). k @ ''='' @ (case v of JStr x \<Rightarrow> x | _ \<Rightarrow> ''?'') @ '';'') kvs)"
| "demo_stringify _ = ''?''"

definition demo_template :: "(string \<times> tree) list" where
  "demo_template =
     [(''package.json'', TFile ''name=template;version=0.1.0;''),
      (''.npmignore'', TFile ''node_modules''),
      (''src'', TDir [(''index.js'', TFile ''render()'')])]"

definition demo_env :: env where
  "demo_env =
     \<lparr>validateProjectName = demo_validate,
      json_parse = demo_parse,
      json_stringify = demo_stringify,
      template = demo_template,
      program_name = ''start-react-project'',
      yarnpkg_ok = False,
      git_init_ok = True,
      answer = Some ''n'',
      close_code = Some 0\<rparr>"

definition demo_fs :: filesystem where
  "demo_fs =
     [([], Dir),
      ([''home''], Dir),
      ([''home'', ''old''], Dir),
      ([''home'', ''notes''], File ''todo'')]"

definition demo_state :: state where
  "demo_state = \<lparr>fs = demo_fs, cwd = [''home''], trace = []\<rparr>"

section \<open>Sequencing\<close>

lemma then_do_simps [simp]:
  "then_do (Resolved, s) k = k s"
  "then_do (Rejected e, s) k = (Rejected e, s)"
  "then_do (Exited c, s) k = (Exited c, s)"
  "then_do (Uncaught e, s) k = (Uncaught e, s)"
  "then_do (Pending, s) k = (Pending, s)"
  by (simp_all add: then_do_def)

lemma catch_do_simps [simp]:
  "catch_do (Resolved, s) h = (Resolved, s)"
  "catch_do (Rejected e, s) h = h e s"
  "catch_do (Exited c, s) h = (Exited c, s)"
  "catch_do (Uncaught e, s) h = (Uncaught e, s)"
  "catch_do (Pending, s) h = (Pending, s)"
  by (simp_all add: catch_do_def)

lemma then_do_inv:
  assumes "P (snd r)" and "\<And>s. P s \<Longrightarrow> P (snd (k s))"
  shows "P (snd (then_do r k))"
proof (cases r)
  case (Pair o1 s1)
  with assms show ?thesis by (cases o1) auto
qed

lemma catch_do_inv:
  assumes "P (snd r)" and "\<And>e s. P s \<Longrightarrow> P (snd (h e s))"
  shows "P (snd (catch_do r h))"
proof (cases r)
  case (Pair o1 s1)
  with assms show ?thesis by (cases o1) auto
qed

lemma chain_inv:
  assumes "P s" and "\<And>k s. k \<in> set ks \<Longrightarrow> P s \<Longrightarrow> P (snd (k s))"
  shows "P (snd (chain ks s))"
  using assms
proof (induction ks arbitrary: s)
  case Nil
  then show ?case by simp
next
  case (Cons k ks)
  show ?case
    unfolding chain.simps
  proof (rule then_do_inv)
    show "P (snd (k s))" using Cons.prems by simp
  next
    fix s' assume "P s'"
    then show "P (snd (chain ks s'))" using Cons.IH Cons.prems(2) by simp
  qed
qed

lemma violations_say [simp]:
  "violations (say e s) = violations s @ violation_of e"
  by (simp add: violations_def say_def)

lemma violations_fs_update [simp]: "violations (s\<lparr>fs := f\<rparr>) = violations s"
  by (simp add: violations_def)

lemma violations_cwd_update [simp]: "violations (s\<lparr>cwd := d\<rparr>) = violations s"
  by (simp add: violations_def)

lemma violations_fs_step: "violations (snd (fs_step op s)) = violations s"
  by (simp add: fs_step_def split: prod.splits option.splits)

lemma violations_chdir: "violations (snd (chdir d s)) = violations s"
  by (simp add: chdir_def split: option.splits node.splits)

lemma violations_validateDir: "violations (snd (validateDir env d a s)) = violations s"
  by (simp add: validateDir_def violations_fs_step Let_def split: option.splits node.splits)

lemma violations_initGit: "violations (snd (initGit env s)) = violations s"
  by (simp add: initGit_def Let_def)

lemma violations_saveProjectName: "violations (snd (saveProjectName env r n s)) = violations s"
  by (simp add: saveProjectName_def Let_def split: option.splits node.splits sum.splits)

lemma violations_on_close: "violations (snd (on_close env c a s)) = violations s"
  by (simp add: on_close_def split: option.splits)

lemma violations_installDependencies: "violations (snd (installDependencies env y s)) = violations s"
  by (simp add: installDependencies_def Let_def violations_on_close)

lemma violations_installDependencies_part_001:
  "violations (snd (installDependencies_part_001 env r s)) = violations s"
  unfolding installDependencies_part_001_def
  by (rule then_do_inv) (simp_all add: violations_chdir Let_def violations_on_close)

lemma violations_report_error: "violations (snd (report_error e s)) = violations s"
  by (simp add: report_error_def)

lemma violations_checkAppName:
  "violations (snd (checkAppName env a s)) =
     violations s @
       (if validForNewPackages (validateProjectName env a) then []
        else (case errors (validateProjectName env a) of None \<Rightarrow> [] | Some es \<Rightarrow> es)
           @ (case warnings (validateProjectName env a) of None \<Rightarrow> [] | Some ws \<Rightarrow> ws))"
  by (simp add: checkAppName_def printValidationResults_def Let_def violations_def say_def
      comp_def split: option.splits)

section \<open>The run after validation\<close>

lemma createApp_part_001_accepted:
  assumes "validForNewPackages (validateProjectName env (path_basename (path_resolve (cwd s) name)))"
  shows "createApp_part_001 env name s =
     catch_do
       (chain
          [validateDir env (path_resolve (cwd s) name) (path_basename (path_resolve (cwd s) name)),
           fs_step (copy (template env) (path_resolve (cwd s) name)),
           saveProjectName env (path_resolve (cwd s) name) (path_basename (path_resolve (cwd s) name)),
           installDependencies_part_001 env (path_resolve (cwd s) name)]
          s)
       report_error"
  using assms by (simp add: createApp_part_001_def Let_def checkAppName_def del: chain.simps)

lemma createApp_accepted:
  assumes "validForNewPackages (validateProjectName env (path_basename (path_resolve (cwd s) name)))"
  shows "createApp env name s =
     catch_do
       (chain
          [validateDir env (path_resolve (cwd s) name) (path_basename (path_resolve (cwd s) name)),
           (\<lambda>s'. then_do (chdir (path_resolve (cwd s) name) s') (\<lambda>s'. then_do (initGit env s')
              (\<lambda>s'. (Resolved, say (Stdout GitInitialized) s')))),
           (\<lambda>s'. then_do (fs_step (copy (template env) (path_resolve (cwd s) name)) s')
              (fs_step (renameSync (path_join (path_resolve (cwd s) name) ''.npmignore'')
                 (path_join (path_resolve (cwd s) name) ''.gitignore'')))),
           saveProjectName env (path_resolve (cwd s) name) (path_basename (path_resolve (cwd s) name)),
           (\<lambda>s'. installDependencies env (yarnpkg_ok env)
              (say (Stdout InstallStarting)
                 (say (Stdout (ProjectCreated (path_basename (path_resolve (cwd s) name)))) s'))),
           (\<lambda>s'. (Resolved, showSuccessMessage (path_resolve (cwd s) name)
              (path_basename (path_resolve (cwd s) name)) (yarnpkg_ok env) s'))]
          (say (ExecSync ''yarnpkg --version'') s))
       report_error"
  using assms
  by (simp add: createApp_def Let_def checkAppName_def shouldUseYarn_def say_def del: chain.simps)

lemma createApp_part_001_violations:
  assumes "validForNewPackages (validateProjectName env (path_basename (path_resolve (cwd s) name)))"
  shows "violations (snd (createApp_part_001 env name s)) = violations s"
proof -
  let ?P = "\<lambda>s'. violations s' = violations s"
  show ?thesis
    unfolding createApp_part_001_accepted [OF assms]
    apply (rule catch_do_inv [where P = ?P])
     apply (rule chain_inv [where P = ?P])
      apply simp
     apply (auto simp: violations_validateDir violations_fs_step violations_saveProjectName
        violations_installDependencies_part_001 violations_report_error)
    done
qed

lemma createApp_violations:
  assumes "validForNewPackages (validateProjectName env (path_basename (path_resolve (cwd s) name)))"
  shows "violations (snd (createApp env name s)) = violations s"
proof -
  let ?P = "\<lambda>s'. violations s' = violations s"
  have git: "?P (snd (then_do (chdir root s') (\<lambda>s. then_do (initGit env s)
                    (\<lambda>s. (Resolved, say (Stdout GitInitialized) s)))))" if "?P s'" for root s'
    by (rule then_do_inv [where P = ?P], simp add: violations_chdir that,
        rule then_do_inv [where P = ?P], simp_all add: violations_initGit)
  have cp: "?P (snd (then_do (fs_step op1 s') (fs_step op2)))" if "?P s'" for op1 op2 s'
    by (rule then_do_inv [where P = ?P]) (simp_all add: violations_fs_step that)
  show ?thesis
    unfolding createApp_accepted [OF assms]
    apply (rule catch_do_inv [where P = ?P])
     apply (rule chain_inv [where P = ?P])
      apply simp
     apply (auto simp: violations_validateDir violations_saveProjectName git cp
        violations_installDependencies violations_report_error showSuccessMessage_def)
    done
qed

lemmas run_defs = script_index_def script_part_000_def script_part_001_def usage_def
  createApp_def createApp_part_000_def createApp_part_001_def checkAppName_def
  printValidationResults_def shouldUseYarn_def initGit_def validateDir_def on_close_def
  installDependencies_def installDependencies_part_001_def saveProjectName_def
  showSuccessMessage_def report_error_def then_do_def catch_do_def fs_step_def chdir_def say_def
  path_resolve_def path_basename_def path_join_def copy_def renameSync_def ensureDir_def is_file_def
  fs_lookup_def fs_write_def fs_remove_def mkdir_missing_def move_subtree_def Let_def

lemmas demo_defs = demo_env_def demo_state_def demo_fs_def demo_template_def demo_validate_def demo_parse_def


section \<open>Resolving names\<close>

lemma split_on_nonempty [simp]: "split_on c xs \<noteq> []"
  by (induction xs) (auto split: list.splits)

lemma split_on_plain: "c \<notin> set b \<Longrightarrow> split_on c b = [b]"
  by (induction b) (auto split: list.splits)

lemma split_on_append: "c \<notin> set b \<Longrightarrow> split_on c (d @ c # b) = split_on c d @ [b]"
  by (induction d) (auto simp: split_on_plain split: list.splits)

lemma resolve_segments_snoc:
  "b \<noteq> [] \<Longrightarrow> b \<noteq> ''.'' \<Longrightarrow> b \<noteq> ''..'' \<Longrightarrow>
   resolve_segments acc (xs @ [b]) = resolve_segments acc xs @ [b]"
  by (induction xs arbitrary: acc) auto

lemma path_resolve_cases:
  assumes "n \<noteq> []"
  shows "path_resolve wd n = resolve_segments [] (split_on CHR ''/'' n) \<or>
         path_resolve wd n = resolve_segments wd (split_on CHR ''/'' n)"
  using assms by (cases n) (simp_all add: path_resolve_def)

lemma path_basename_snoc [simp]: "path_basename (p @ [b]) = b"
  by (simp add: path_basename_def)

lemma basename_of_separated:
  assumes "plain_component b"
  shows "path_basename (path_resolve wd (d @ ''/'' @ b)) = b"
proof -
  from assms have b: "b \<noteq> []" "b \<noteq> ''.''" "b \<noteq> ''..''" "CHR ''/'' \<notin> set b"
    by (simp_all add: plain_component_def)
  have split: "split_on CHR ''/'' (d @ ''/'' @ b) = split_on CHR ''/'' d @ [b]"
    using split_on_append [OF b(4), of d] by simp
  have snoc: "resolve_segments a (split_on CHR ''/'' (d @ ''/'' @ b))
      = resolve_segments a (split_on CHR ''/'' d) @ [b]" for a
    unfolding split by (rule resolve_segments_snoc [OF b(1,2,3)])
  have "d @ ''/'' @ b \<noteq> []" by simp
  from path_resolve_cases [OF this, of wd] show ?thesis
    unfolding snoc by (elim disjE) (simp_all only: path_basename_snoc)
qed

lemma basename_of_plain:
  assumes "plain_component b"
  shows "path_basename (path_resolve wd b) = b"
proof -
  from assms have b: "b \<noteq> []" "b \<noteq> ''.''" "b \<noteq> ''..''" "CHR ''/'' \<notin> set b"
    by (simp_all add: plain_component_def)
  have one: "resolve_segments a [b] = a @ [b]" for a
    using resolve_segments_snoc [OF b(1,2,3), of a "[]"] by simp
  from path_resolve_cases [OF b(1), of wd] show ?thesis
    unfolding split_on_plain [OF b(4)] one by (elim disjE) (simp_all only: path_basename_snoc)
qed

lemma on_close_validator [simp]:
  "on_close (env\<lparr>validateProjectName := v\<rparr>) = on_close env"
  by (intro ext) (simp add: on_close_def)

lemma validateDir_validator [simp]:
  "validateDir (env\<lparr>validateProjectName := v\<rparr>) = validateDir env"
  by (intro ext) (simp add: validateDir_def Let_def split: option.split node.split)

lemma saveProjectName_validator [simp]:
  "saveProjectName (env\<lparr>validateProjectName := v\<rparr>) = saveProjectName env"
  by (intro ext) (simp add: saveProjectName_def Let_def split: option.split node.split sum.split)

lemma installDependencies_validator [simp]:
  "installDependencies (env\<lparr>validateProjectName := v\<rparr>) = installDependencies env"
  by (intro ext) (simp add: installDependencies_def)

lemma installDependencies_part_001_validator [simp]:
  "installDependencies_part_001 (env\<lparr>validateProjectName := v\<rparr>) = installDependencies_part_001 env"
  by (intro ext) (simp add: installDependencies_part_001_def)

lemma initGit_validator [simp]:
  "initGit (env\<lparr>validateProjectName := v\<rparr>) = initGit env"
  by (intro ext) (simp add: initGit_def)


section \<open>Directory resolution\<close>

lemma chain_stops [simp]:
  "chain (k # ks) s = (Exited c, s') \<longleftrightarrow>
     k s = (Exited c, s') \<or> (\<exists>s1. k s = (Resolved, s1) \<and> chain ks s1 = (Exited c, s'))"
  by (cases "k s"; cases "fst (k s)") auto

lemma validateDir_file:
  assumes "fs_lookup (fs s) dir = Some (File c)"
  shows "validateDir env dir appName s = (Exited 1, say (Stderr (AlreadyExists appName)) s)"
  using assms by (simp add: validateDir_def)

lemma validateDir_dir:
  assumes "fs_lookup (fs s) dir = Some Dir"
  shows "validateDir env dir appName s =
     (case answer env of
        None \<Rightarrow> Pending
      | Some line \<Rightarrow> if line = ''y'' then Resolved else Exited 1,
      say (Question appName) s)"
  using assms by (auto simp: validateDir_def Let_def split: option.splits)

lemma fs_say [simp]: "fs (say e s) = fs s"
  by (simp add: say_def)

lemma cwd_say [simp]: "cwd (say e s) = cwd s"
  by (simp add: say_def)

lemma trace_say [simp]: "trace (say e s) = trace s @ [e]"
  by (simp add: say_def)

lemma rejected_name_run:
  assumes "\<not> validForNewPackages (validateProjectName env (path_basename (path_resolve (cwd s) name)))"
  shows "fst (createApp env name s) = Exited 1"
    and "fst (createApp_part_001 env name s) = Exited 1"
    and "fst (createApp_part_000 env name s) = Exited 1"
    and "fs (snd (createApp env name s)) = fs s"
    and "fs (snd (createApp_part_001 env name s)) = fs s"
    and "fs (snd (createApp_part_000 env name s)) = fs s"
  using assms
  by (simp_all add: createApp_def createApp_part_001_def createApp_part_000_def Let_def
      checkAppName_def shouldUseYarn_def printValidationResults_def
      del: chain.simps split: option.splits)

lemma conflict_run:
  assumes "validForNewPackages (validateProjectName env (path_basename (path_resolve (cwd s) name)))"
    and "fs_lookup (fs s) (path_resolve (cwd s) name) = Some (File c)"
  shows "createApp env name s =
           (Exited 1, say (Stderr (AlreadyExists (path_basename (path_resolve (cwd s) name))))
              (say (ExecSync ''yarnpkg --version'') s))"
    and "createApp_part_001 env name s =
           (Exited 1, say (Stderr (AlreadyExists (path_basename (path_resolve (cwd s) name)))) s)"
  using assms(2)
  by (simp_all add: createApp_accepted [OF assms(1)] createApp_part_001_accepted [OF assms(1)]
      validateDir_file [where c = c])

lemma declined_run:
  assumes "validForNewPackages (validateProjectName env (path_basename (path_resolve (cwd s) name)))"
    and "fs_lookup (fs s) (path_resolve (cwd s) name) = Some Dir"
    and "answer env = Some line" and "line \<noteq> ''y''"
  shows "createApp env name s =
           (Exited 1, say (Question (path_basename (path_resolve (cwd s) name)))
              (say (ExecSync ''yarnpkg --version'') s))"
    and "createApp_part_001 env name s =
           (Exited 1, say (Question (path_basename (path_resolve (cwd s) name))) s)"
  using assms(2,3,4)
  by (simp_all add: createApp_accepted [OF assms(1)] createApp_part_001_accepted [OF assms(1)]
      validateDir_dir)

lemma unanswered_run:
  assumes "validForNewPackages (validateProjectName env (path_basename (path_resolve (cwd s) name)))"
    and "fs_lookup (fs s) (path_resolve (cwd s) name) = Some Dir"
    and "answer env = None"
  shows "createApp env name s =
           (Pending, say (Question (path_basename (path_resolve (cwd s) name)))
              (say (ExecSync ''yarnpkg --version'') s))"
    and "createApp_part_001 env name s =
           (Pending, say (Question (path_basename (path_resolve (cwd s) name))) s)"
  using assms(2,3)
  by (simp_all add: createApp_accepted [OF assms(1)] createApp_part_001_accepted [OF assms(1)]
      validateDir_dir)

lemma not_confirmed_run:
  assumes "validForNewPackages (validateProjectName env (path_basename (path_resolve (cwd s) name)))"
    and "fs_lookup (fs s) (path_resolve (cwd s) name) = Some Dir"
    and "answer env \<noteq> Some ''y''"
  shows "createApp env name s =
           (case answer env of None \<Rightarrow> Pending | Some line \<Rightarrow> Exited 1,
            say (Question (path_basename (path_resolve (cwd s) name)))
              (say (ExecSync ''yarnpkg --version'') s))"
    and "createApp_part_001 env name s =
           (case answer env of None \<Rightarrow> Pending | Some line \<Rightarrow> Exited 1,
            say (Question (path_basename (path_resolve (cwd s) name))) s)"
  using assms(3) declined_run [OF assms(1,2)] unanswered_run [OF assms(1,2)]
  by (cases "answer env"; simp)+


lemma trace_fs_step: "trace (snd (fs_step op s)) = trace s"
  by (simp add: fs_step_def split: prod.splits option.splits)

lemma trace_chdir: "trace (snd (chdir d s)) = trace s"
  by (simp add: chdir_def split: option.splits node.splits)

lemma trace_saveProjectName: "trace (snd (saveProjectName env r n s)) = trace s"
  by (simp add: saveProjectName_def Let_def split: option.splits node.splits sum.splits)

lemma logged_on_close: "e \<in> set (trace s) \<Longrightarrow> e \<in> set (trace (snd (on_close env c a s)))"
  by (simp add: on_close_def split: option.splits)

lemma logged_initGit: "e \<in> set (trace s) \<Longrightarrow> e \<in> set (trace (snd (initGit env s)))"
  by (simp add: initGit_def Let_def)

lemma logged_installDependencies:
  "e \<in> set (trace s) \<Longrightarrow> e \<in> set (trace (snd (installDependencies env y s)))"
  by (simp add: installDependencies_def Let_def logged_on_close)

lemma logged_installDependencies_part_001:
  "e \<in> set (trace s) \<Longrightarrow> e \<in> set (trace (snd (installDependencies_part_001 env r s)))"
  unfolding installDependencies_part_001_def
  by (rule then_do_inv [where P = "\<lambda>s. e \<in> set (trace s)"])
     (simp_all add: trace_chdir Let_def logged_on_close)

lemma logged_report_error: "e \<in> set (trace s) \<Longrightarrow> e \<in> set (trace (snd (report_error x s)))"
  by (simp add: report_error_def)

lemma confirmed_run:
  assumes "validForNewPackages (validateProjectName env (path_basename (path_resolve (cwd s) name)))"
    and "fs_lookup (fs s) (path_resolve (cwd s) name) = Some Dir"
    and "answer env = Some ''y''"
  shows "createApp env name s =
     catch_do
       (chain
          [(\<lambda>s'. then_do (chdir (path_resolve (cwd s) name) s') (\<lambda>s'. then_do (initGit env s')
              (\<lambda>s'. (Resolved, say (Stdout GitInitialized) s')))),
           (\<lambda>s'. then_do (fs_step (copy (template env) (path_resolve (cwd s) name)) s')
              (fs_step (renameSync (path_join (path_resolve (cwd s) name) ''.npmignore'')
                 (path_join (path_resolve (cwd s) name) ''.gitignore'')))),
           saveProjectName env (path_resolve (cwd s) name) (path_basename (path_resolve (cwd s) name)),
           (\<lambda>s'. installDependencies env (yarnpkg_ok env)
              (say (Stdout InstallStarting)
                 (say (Stdout (ProjectCreated (path_basename (path_resolve (cwd s) name)))) s'))),
           (\<lambda>s'. (Resolved, showSuccessMessage (path_resolve (cwd s) name)
              (path_basename (path_resolve (cwd s) name)) (yarnpkg_ok env) s'))]
          (say (Question (path_basename (path_resolve (cwd s) name)))
             (say (ExecSync ''yarnpkg --version'') s)))
       report_error"
    and "createApp_part_001 env name s =
     catch_do
       (chain
          [fs_step (copy (template env) (path_resolve (cwd s) name)),
           saveProjectName env (path_resolve (cwd s) name) (path_basename (path_resolve (cwd s) name)),
           installDependencies_part_001 env (path_resolve (cwd s) name)]
          (say (Question (path_basename (path_resolve (cwd s) name))) s))
       report_error"
proof -
  have 1: "chain (validateDir env (path_resolve (cwd s) name) a # ks) s0 =
       chain ks (say (Question a) s0)" if "fs s0 = fs s" for a ks s0
    using that assms(2,3) by (simp add: validateDir_dir)
  show "createApp env name s = catch_do (chain
          [(\<lambda>s'. then_do (chdir (path_resolve (cwd s) name) s') (\<lambda>s'. then_do (initGit env s')
              (\<lambda>s'. (Resolved, say (Stdout GitInitialized) s')))),
           (\<lambda>s'. then_do (fs_step (copy (template env) (path_resolve (cwd s) name)) s')
              (fs_step (renameSync (path_join (path_resolve (cwd s) name) ''.npmignore'')
                 (path_join (path_resolve (cwd s) name) ''.gitignore'')))),
           saveProjectName env (path_resolve (cwd s) name) (path_basename (path_resolve (cwd s) name)),
           (\<lambda>s'. installDependencies env (yarnpkg_ok env)
              (say (Stdout InstallStarting)
                 (say (Stdout (ProjectCreated (path_basename (path_resolve (cwd s) name)))) s'))),
           (\<lambda>s'. (Resolved, showSuccessMessage (path_resolve (cwd s) name)
              (path_basename (path_resolve (cwd s) name)) (yarnpkg_ok env) s'))]
          (say (Question (path_basename (path_resolve (cwd s) name)))
             (say (ExecSync ''yarnpkg --version'') s)))
       report_error"
    unfolding createApp_accepted [OF assms(1)] by (subst 1) simp_all
  show "createApp_part_001 env name s = catch_do (chain
          [fs_step (copy (template env) (path_resolve (cwd s) name)),
           saveProjectName env (path_resolve (cwd s) name) (path_basename (path_resolve (cwd s) name)),
           installDependencies_part_001 env (path_resolve (cwd s) name)]
          (say (Question (path_basename (path_resolve (cwd s) name))) s))
       report_error"
    unfolding createApp_part_001_accepted [OF assms(1)] by (subst 1) simp_all
qed

lemma prompt_stays_logged:
  assumes "validForNewPackages (validateProjectName env (path_basename (path_resolve (cwd s) name)))"
    and "fs_lookup (fs s) (path_resolve (cwd s) name) = Some Dir"
  shows "Question (path_basename (path_resolve (cwd s) name)) \<in> set (trace (snd (createApp env name s)))"
    and "Question (path_basename (path_resolve (cwd s) name)) \<in> set (trace (snd (createApp_part_001 env name s)))"
proof -
  let ?q = "Question (path_basename (path_resolve (cwd s) name))"
  let ?P = "\<lambda>s'. ?q \<in> set (trace s')"
  have git: "?P (snd (then_do (chdir root s') (\<lambda>s. then_do (initGit env s)
                    (\<lambda>s. (Resolved, say (Stdout GitInitialized) s)))))" if "?P s'" for root s'
    by (rule then_do_inv [where P = ?P], simp add: trace_chdir that,
        rule then_do_inv [where P = ?P], simp_all add: logged_initGit)
  have cp: "?P (snd (then_do (fs_step op1 s') (fs_step op2)))" if "?P s'" for op1 op2 s'
    by (rule then_do_inv [where P = ?P]) (simp_all add: trace_fs_step that)
  show "?P (snd (createApp env name s))"
  proof (cases "answer env = Some ''y''")
    case True
    show ?thesis
      unfolding confirmed_run(1) [OF assms True]
      apply (rule catch_do_inv [where P = ?P])
       apply (rule chain_inv [where P = ?P])
        apply simp
       apply (auto simp: trace_saveProjectName git cp logged_installDependencies
          logged_report_error showSuccessMessage_def)
      done
  next
    case False
    show ?thesis by (simp add: not_confirmed_run(1) [OF assms False])
  qed
  show "?P (snd (createApp_part_001 env name s))"
  proof (cases "answer env = Some ''y''")
    case True
    show ?thesis
      unfolding confirmed_run(2) [OF assms True]
      apply (rule catch_do_inv [where P = ?P])
       apply (rule chain_inv [where P = ?P])
        apply simp
       apply (auto simp: trace_saveProjectName trace_fs_step logged_installDependencies_part_001
          logged_report_error)
      done
  next
    case False
    show ?thesis by (simp add: not_confirmed_run(2) [OF assms False])
  qed
qed

section \<open>How runs end\<close>

lemma settlesI: "(\<And>s. fst (k s) = Resolved \<or> (\<exists>e. fst (k s) = Rejected e)) \<Longrightarrow> settles k"
  by (simp add: settles_def)

lemma settlesD: "settles k \<Longrightarrow> fst (k s) = Resolved \<or> (\<exists>e. fst (k s) = Rejected e)"
  by (simp add: settles_def)

lemma settles_then_do:
  assumes "fst r = Resolved \<or> (\<exists>e. fst r = Rejected e)" and "settles k"
  shows "fst (then_do r k) = Resolved \<or> (\<exists>e. fst (then_do r k) = Rejected e)"
proof (cases r)
  case (Pair o1 s1)
  with assms(1) settlesD [OF assms(2), of s1] show ?thesis by (cases o1) auto
qed

lemma settles_chain:
  assumes "\<And>k. k \<in> set ks \<Longrightarrow> settles k"
  shows "settles (chain ks)"
  using assms
proof (induction ks)
  case Nil
  show ?case by (rule settlesI) simp
next
  case (Cons k ks)
  have tl: "settles (chain ks)" using Cons by simp
  have hd: "settles k" using Cons.prems by simp
  show ?case
    by (rule settlesI) (simp only: chain.simps, rule settles_then_do [OF settlesD [OF hd] tl])
qed

lemma settled_catch_report:
  assumes "fst r = Resolved \<or> (\<exists>e. fst r = Rejected e)"
  shows "fst (catch_do r report_error) = Resolved"
proof (cases r)
  case (Pair o1 s1)
  with assms show ?thesis by (cases o1) (auto simp: report_error_def)
qed

lemma settles_fs_step: "settles (fs_step op)"
  by (rule settlesI) (simp add: fs_step_def split: prod.splits option.splits)

lemma settles_chdir: "settles (chdir d)"
  by (rule settlesI) (simp add: chdir_def split: option.splits node.splits)

lemma settles_initGit: "settles (initGit env)"
  by (rule settlesI) (simp add: initGit_def Let_def)

lemma settles_saveProjectName: "settles (saveProjectName env r n)"
  by (rule settlesI) (simp add: saveProjectName_def Let_def split: option.splits node.splits sum.splits)

lemma settles_on_close_npm: "settles (on_close env c (Some as))"
  by (rule settlesI) (simp add: on_close_def)

lemma settles_on_close_ok: "close_code env = Some 0 \<Longrightarrow> settles (on_close env c a)"
  by (rule settlesI) (simp add: on_close_def)

lemma settles_installDependencies_part_001: "settles (installDependencies_part_001 env r)"
proof (rule settlesI)
  fix s
  have "settles (\<lambda>s. on_close env ''npm'' (Some [''install''])
          (say (Spawn ''npm'' (Some [''install'']) (cwd s)) s))"
    by (rule settlesI) (simp add: on_close_def)
  from settles_then_do [OF settlesD [OF settles_chdir] this]
  show "fst (installDependencies_part_001 env r s) = Resolved \<or>
        (\<exists>e. fst (installDependencies_part_001 env r s) = Rejected e)"
    by (simp add: installDependencies_part_001_def Let_def)
qed

lemma settles_installDependencies:
  assumes "\<not> useYarn \<or> close_code env = Some 0"
  shows "settles (\<lambda>s. installDependencies env useYarn (g s))"
  using assms by (intro settlesI) (auto simp: installDependencies_def Let_def on_close_def)

lemma settles_git_stage:
  "settles (\<lambda>s'. then_do (chdir root s') (\<lambda>s'. then_do (initGit env s')
              (\<lambda>s'. (Resolved, say (Stdout GitInitialized) s'))))"
proof -
  have a: "settles (\<lambda>s'. (Resolved, say (Stdout GitInitialized) s'))"
    by (rule settlesI) simp
  have b: "settles (\<lambda>s'. then_do (initGit env s') (\<lambda>s'. (Resolved, say (Stdout GitInitialized) s')))"
    by (rule settlesI) (rule settles_then_do [OF settlesD [OF settles_initGit] a])
  show ?thesis
    by (rule settlesI) (rule settles_then_do [OF settlesD [OF settles_chdir] b])
qed

lemma settles_copy_stage: "settles (\<lambda>s'. then_do (fs_step op1 s') (fs_step op2))"
  by (rule settlesI) (rule settles_then_do [OF settlesD [OF settles_fs_step] settles_fs_step])

lemma settles_success: "settles (\<lambda>s'. (Resolved, showSuccessMessage root appName useYarn s'))"
  by (rule settlesI) simp

lemma validateDir_missing:
  assumes "fs_lookup (fs s) dir = None"
  shows "validateDir env dir appName s = fs_step (ensureDir dir) s"
  using assms by (simp add: validateDir_def)

lemma chain_validateDir_missing:
  assumes "fs_lookup (fs s0) dir = None"
  shows "chain (validateDir env dir a # ks) s0 = chain (fs_step (ensureDir dir) # ks) s0"
  by (simp add: validateDir_missing [OF assms])


lemma part_001_rest_settles:
  "settles (chain [fs_step (copy tpl root), saveProjectName env root appName,
                   installDependencies_part_001 env root])"
  by (rule settles_chain)
     (auto simp: settles_fs_step settles_saveProjectName settles_installDependencies_part_001)

lemma index_rest_settles:
  assumes "\<not> useYarn \<or> close_code env = Some 0"
  shows "settles (chain
          [(\<lambda>s'. then_do (chdir root s') (\<lambda>s'. then_do (initGit env s')
              (\<lambda>s'. (Resolved, say (Stdout GitInitialized) s')))),
           (\<lambda>s'. then_do (fs_step op1 s') (fs_step op2)),
           saveProjectName env root appName,
           (\<lambda>s'. installDependencies env useYarn (g s')),
           (\<lambda>s'. (Resolved, showSuccessMessage root appName useYarn s'))])"
  by (rule settles_chain)
     (auto simp: settles_git_stage settles_copy_stage settles_saveProjectName
        settles_installDependencies [OF assms] settles_success)

lemma part_001_outcome:
  assumes "validForNewPackages (validateProjectName env (path_basename (path_resolve (cwd s) name)))"
  shows "fst (createApp_part_001 env name s) =
     (case fs_lookup (fs s) (path_resolve (cwd s) name) of
        None \<Rightarrow> Resolved
      | Some Dir \<Rightarrow>
          (case answer env of
             None \<Rightarrow> Pending
           | Some line \<Rightarrow> if line = ''y'' then Resolved else Exited 1)
      | Some (File _) \<Rightarrow> Exited 1)"
proof (cases "fs_lookup (fs s) (path_resolve (cwd s) name)")
  case None
  have "settles (chain [fs_step (ensureDir (path_resolve (cwd s) name)),
      fs_step (copy (template env) (path_resolve (cwd s) name)),
      saveProjectName env (path_resolve (cwd s) name) (path_basename (path_resolve (cwd s) name)),
      installDependencies_part_001 env (path_resolve (cwd s) name)])"
    by (rule settles_chain)
       (auto simp: settles_fs_step settles_saveProjectName settles_installDependencies_part_001)
  from settled_catch_report [OF settlesD [OF this, of s]] None show ?thesis
    unfolding createApp_part_001_accepted [OF assms]
    by (subst chain_validateDir_missing) simp_all
next
  case (Some n)
  show ?thesis
  proof (cases n)
    case (File c)
    with Some conflict_run(2) [OF assms, of c] show ?thesis by simp
  next
    case Dir
    show ?thesis
    proof (cases "answer env = Some ''y''")
      case True
      from settled_catch_report [OF settlesD [OF part_001_rest_settles]] Some Dir True
      show ?thesis
        unfolding confirmed_run(2) [OF assms Some [unfolded Dir] True] by simp
    next
      case False
      with Some Dir not_confirmed_run(2) [OF assms _ False] show ?thesis
        by (simp split: option.splits)
    qed
  qed
qed

lemma index_outcome:
  assumes "validForNewPackages (validateProjectName env (path_basename (path_resolve (cwd s) name)))"
    and "\<not> yarnpkg_ok env \<or> close_code env = Some 0"
  shows "fst (createApp env name s) =
     (case fs_lookup (fs s) (path_resolve (cwd s) name) of
        None \<Rightarrow> Resolved
      | Some Dir \<Rightarrow>
          (case answer env of
             None \<Rightarrow> Pending
           | Some line \<Rightarrow> if line = ''y'' then Resolved else Exited 1)
      | Some (File _) \<Rightarrow> Exited 1)"
proof (cases "fs_lookup (fs s) (path_resolve (cwd s) name)")
  case None
  have "settles (chain
          [fs_step (ensureDir (path_resolve (cwd s) name)),
           (\<lambda>s'. then_do (chdir (path_resolve (cwd s) name) s') (\<lambda>s'. then_do (initGit env s')
              (\<lambda>s'. (Resolved, say (Stdout GitInitialized) s')))),
           (\<lambda>s'. then_do (fs_step (copy (template env) (path_resolve (cwd s) name)) s')
              (fs_step (renameSync (path_join (path_resolve (cwd s) name) ''.npmignore'')
                 (path_join (path_resolve (cwd s) name) ''.gitignore'')))),
           saveProjectName env (path_resolve (cwd s) name) (path_basename (path_resolve (cwd s) name)),
           (\<lambda>s'. installDependencies env (yarnpkg_ok env)
              (say (Stdout InstallStarting)
                 (say (Stdout (ProjectCreated (path_basename (path_resolve (cwd s) name)))) s'))),
           (\<lambda>s'. (Resolved, showSuccessMessage (path_resolve (cwd s) name)
              (path_basename (path_resolve (cwd s) name)) (yarnpkg_ok env) s'))])"
    by (rule settles_chain)
       (auto simp: settles_fs_step settles_git_stage settles_copy_stage settles_saveProjectName
        settles_installDependencies [OF assms(2)] settles_success)
  from settled_catch_report [OF settlesD [OF this, of "say (ExecSync ''yarnpkg --version'') s"]] None
  show ?thesis
    unfolding createApp_accepted [OF assms(1)]
    by (subst chain_validateDir_missing) simp_all
next
  case (Some n)
  show ?thesis
  proof (cases n)
    case (File c)
    with Some conflict_run(1) [OF assms(1), of c] show ?thesis by simp
  next
    case Dir
    show ?thesis
    proof (cases "answer env = Some ''y''")
      case True
      from settled_catch_report [OF settlesD [OF index_rest_settles [OF assms(2)]]] Some Dir True
      show ?thesis
        unfolding confirmed_run(1) [OF assms(1) Some [unfolded Dir] True] by simp
    next
      case False
      with Some Dir not_confirmed_run(1) [OF assms(1) _ False] show ?thesis
        by (simp split: option.splits)
    qed
  qed
qed

lemma staysI: "(\<And>s. runs_on (fst (k s))) \<Longrightarrow> stays k"
  by (simp add: stays_def)

lemma staysD: "stays k \<Longrightarrow> runs_on (fst (k s))"
  by (simp add: stays_def)

lemma settles_stays:
  assumes "settles k"
  shows "stays k"
proof (rule staysI)
  fix s
  from settlesD [OF assms, of s] show "runs_on (fst (k s))" by auto
qed

lemma stays_then_do:
  assumes "runs_on (fst r)" and "stays k"
  shows "runs_on (fst (then_do r k))"
proof (cases r)
  case (Pair o1 s1)
  with assms(1) staysD [OF assms(2), of s1] show ?thesis by (cases o1) auto
qed

lemma stays_chain:
  assumes "\<And>k. k \<in> set ks \<Longrightarrow> stays k"
  shows "stays (chain ks)"
  using assms
proof (induction ks)
  case Nil
  show ?case by (rule staysI) simp
next
  case (Cons k ks)
  have tl: "stays (chain ks)" using Cons by simp
  have hd: "stays k" using Cons.prems by simp
  show ?case
    by (rule staysI) (simp only: chain.simps, rule stays_then_do [OF staysD [OF hd] tl])
qed

lemma stays_catch_report:
  assumes "runs_on (fst r)"
  shows "runs_on (fst (catch_do r report_error))"
proof (cases r)
  case (Pair o1 s1)
  with assms show ?thesis by (cases o1) (auto simp: report_error_def)
qed

lemma stays_installDependencies: "stays (\<lambda>s. installDependencies env useYarn (g s))"
  by (rule staysI) (simp add: installDependencies_def Let_def on_close_def split: option.splits)

lemma index_rest_stays:
  "stays (chain
          [(\<lambda>s'. then_do (chdir root s') (\<lambda>s'. then_do (initGit env s')
              (\<lambda>s'. (Resolved, say (Stdout GitInitialized) s')))),
           (\<lambda>s'. then_do (fs_step op1 s') (fs_step op2)),
           saveProjectName env root appName,
           (\<lambda>s'. installDependencies env useYarn (g s')),
           (\<lambda>s'. (Resolved, showSuccessMessage root appName useYarn s'))])"
  by (rule stays_chain)
     (auto simp: settles_git_stage settles_copy_stage settles_saveProjectName
        stays_installDependencies settles_success intro: settles_stays)


section \<open>The file system\<close>

lemma map_of_filter_key:
  "map_of (filter (\<lambda>e. Q (fst e)) f) p = (if Q p then map_of f p else None)"
  by (induction f) auto

lemma fs_lookup_remove [simp]:
  "fs_lookup (fs_remove p f) q = (if q = p then None else fs_lookup f q)"
  unfolding fs_lookup_def fs_remove_def
  using map_of_filter_key [of "\<lambda>k. k \<noteq> p" f q] by simp

lemma fs_lookup_write [simp]:
  "fs_lookup (fs_write p n f) q = (if q = p then Some n else fs_lookup f q)"
  using fs_lookup_remove [of p f q] by (simp add: fs_write_def fs_lookup_def)

lemma fs_lookup_mkdir_missing:
  "fs_lookup (mkdir_missing q f) p =
     (if p = q \<and> fs_lookup f q = None then Some Dir else fs_lookup f p)"
  by (simp add: mkdir_missing_def)

lemma fs_lookup_fold_mkdir:
  "fs_lookup (fold mkdir_missing qs f) p =
     (if p \<in> set qs \<and> fs_lookup f p = None then Some Dir else fs_lookup f p)"
  by (induction qs arbitrary: f) (auto simp: fs_lookup_mkdir_missing)

lemma ensureDir_lookup:
  assumes "ensureDir d f = (None, f')"
  shows "fs_lookup f' p = (if prefix p d \<and> fs_lookup f p = None then Some Dir else fs_lookup f p)"
  using assms by (auto simp: ensureDir_def fs_lookup_fold_mkdir split: option.splits)

lemma ensureDir_creates:
  assumes "ensureDir d f = (None, f')" and "fs_lookup f d = None"
  shows "fs_lookup f' d = Some Dir"
  using ensureDir_lookup [OF assms(1), of d] assms(2) by simp

lemma copy_entries_append:
  "copy_entries (xs @ ys) f =
     (case copy_entries xs f of (Some x, f') \<Rightarrow> (Some x, f') | (None, f') \<Rightarrow> copy_entries ys f')"
  by (induction xs arbitrary: f) (auto split: prod.splits option.splits)

lemma copy_tree_entries:
  "copy_tree t dest f = copy_entries (entries dest t) f"
  "copy_children kids dest f = copy_entries (children dest kids) f"
  by (induction t dest f and kids dest f rule: copy_tree_copy_children.induct)
     (auto simp: copy_entries_append split: option.splits node.splits prod.splits)

lemma copy_entry_other:
  assumes "copy_entry e f = (None, f')" and "p \<noteq> fst e"
  shows "fs_lookup f' p = fs_lookup f p"
  using assms by (cases e; cases "snd e") (auto split: option.splits node.splits)

lemma copy_entry_self:
  assumes "copy_entry e f = (None, f')"
  shows "fs_lookup f' (fst e) = Some (snd e)"
  using assms by (cases e; cases "snd e") (auto split: option.splits node.splits)

lemma copy_entry_keeps_dir:
  assumes "copy_entry e f = (None, f')" and "fs_lookup f p = Some Dir"
  shows "fs_lookup f' p = Some Dir"
  using assms by (cases e; cases "snd e") (auto split: option.splits node.splits)

lemma copy_entries_other:
  assumes "copy_entries es f = (None, f')" and "p \<notin> fst ` set es"
  shows "fs_lookup f' p = fs_lookup f p"
  using assms
proof (induction es arbitrary: f)
  case Nil
  then show ?case by simp
next
  case (Cons e es)
  from Cons.prems(1) obtain f1 where 1: "copy_entry e f = (None, f1)"
    and 2: "copy_entries es f1 = (None, f')"
    by (auto split: prod.splits option.splits)
  from Cons.prems(2) have "p \<noteq> fst e" "p \<notin> fst ` set es" by auto
  with Cons.IH [OF 2] copy_entry_other [OF 1] show ?case by simp
qed

lemma copy_entries_written:
  assumes "copy_entries es f = (None, f')" and "distinct (map fst es)" and "(p, n) \<in> set es"
  shows "fs_lookup f' p = Some n"
  using assms
proof (induction es arbitrary: f)
  case Nil
  then show ?case by simp
next
  case (Cons e es)
  from Cons.prems(1) obtain f1 where 1: "copy_entry e f = (None, f1)"
    and 2: "copy_entries es f1 = (None, f')"
    by (auto split: prod.splits option.splits)
  from Cons.prems(2) have d: "fst e \<notin> fst ` set es" "distinct (map fst es)" by auto
  show ?case
  proof (cases "(p, n) = e")
    case True
    with copy_entries_other [OF 2 d(1)] copy_entry_self [OF 1] show ?thesis by auto
  next
    case False
    with Cons.prems(3) have "(p, n) \<in> set es" by auto
    from Cons.IH [OF 2 d(2) this] show ?thesis .
  qed
qed

lemma copy_entries_keeps_dir:
  assumes "copy_entries es f = (None, f')" and "fs_lookup f p = Some Dir"
  shows "fs_lookup f' p = Some Dir"
  using assms
proof (induction es arbitrary: f)
  case Nil
  then show ?case by simp
next
  case (Cons e es)
  from Cons.prems(1) obtain f1 where 1: "copy_entry e f = (None, f1)"
    and 2: "copy_entries es f1 = (None, f')"
    by (auto split: prod.splits option.splits)
  from Cons.IH [OF 2 copy_entry_keeps_dir [OF 1 Cons.prems(2)]] show ?case .
qed

lemma entries_shift:
  "entries (root @ q) t = map (\<lambda>e. (root @ fst e, snd e)) (entries q t)"
  "children (root @ q) kids = map (\<lambda>e. (root @ fst e, snd e)) (children q kids)"
  by (induction q t and q kids rule: entries_children.induct) auto

lemma children_listing:
  "children root tpl = map (\<lambda>e. (root @ fst e, snd e)) (listing tpl)"
  using entries_shift(2) [of root "[]" tpl] by (simp add: listing_def)

lemma distinct_children:
  assumes "wf_template tpl"
  shows "distinct (map fst (children root tpl))"
proof -
  have "map fst (children root tpl) = map ((@) root) (map fst (listing tpl))"
    by (simp add: children_listing comp_def)
  moreover have "distinct (map ((@) root) (map fst (listing tpl)))"
    using assms by (simp add: wf_template_def distinct_map inj_on_def)
  ultimately show ?thesis by simp
qed

lemma copy_lookup:
  assumes "copy tpl root f = (None, f')" and "wf_template tpl"
  shows "fs_lookup f' root = Some Dir"
    and "(rel, n) \<in> set (listing tpl) \<Longrightarrow> fs_lookup f' (root @ rel) = Some n"
proof -
  from assms(1) have run: "copy_entries (children root tpl) (fs_write root Dir f) = (None, f')"
    by (auto simp: copy_def copy_tree_entries(2) split: option.splits node.splits)
  show "fs_lookup f' root = Some Dir"
    by (rule copy_entries_keeps_dir [OF run]) simp
  assume "(rel, n) \<in> set (listing tpl)"
  then have "(root @ rel, n) \<in> set (children root tpl)"
    by (force simp: children_listing)
  from copy_entries_written [OF run distinct_children [OF assms(2)] this]
  show "fs_lookup f' (root @ rel) = Some n" .
qed

lemma move_subtree_lookup:
  assumes "\<not> prefix dst p"
  shows "fs_lookup (move_subtree src dst f) p = (if prefix src p then None else fs_lookup f p)"
proof -
  let ?moved = "map (\<lambda>e. (dst @ drop (length src) (fst e), snd e)) (filter (\<lambda>e. prefix src (fst e)) f)"
  have "p \<notin> fst ` set ?moved" using assms by auto
  then have none: "map_of ?moved p = None" by (simp add: map_of_eq_None_iff)
  have "p \<noteq> dst" using assms by auto
  then have kept: "map_of (filter (\<lambda>e. \<not> prefix src (fst e) \<and> fst e \<noteq> dst) f) p
      = (if prefix src p then None else map_of f p)"
    using map_of_filter_key [of "\<lambda>k. \<not> prefix src k \<and> k \<noteq> dst" f p] by simp
  show ?thesis
    unfolding fs_lookup_def move_subtree_def map_of_append by (simp add: map_add_def none kept)
qed

lemma renameSync_other:
  assumes "renameSync src dst f = (None, f')" and "\<not> prefix dst p" and "\<not> prefix src p"
  shows "fs_lookup f' p = fs_lookup f p"
proof -
  have "p \<noteq> dst" "p \<noteq> src" using assms(2,3) by auto
  with assms move_subtree_lookup [OF assms(2), of src f] show ?thesis
    by (auto simp: renameSync_def split: option.splits node.splits if_splits)
qed

lemma renameSync_source_gone:
  assumes "renameSync src dst f = (None, f')" and "\<not> prefix dst src"
  shows "fs_lookup f' src = None"
proof -
  have "src \<noteq> dst" using assms(2) by auto
  with assms move_subtree_lookup [OF assms(2), of src f] show ?thesis
    by (auto simp: renameSync_def split: option.splits node.splits if_splits)
qed

lemma renameSync_file:
  assumes "renameSync src dst f = (None, f')" and "fs_lookup f src = Some (File c)"
  shows "fs_lookup f' dst = Some (File c)"
  using assms by (auto simp: renameSync_def split: option.splits node.splits)

lemma set_prop_lookup: "map_of (set_prop k v kvs) = (map_of kvs)(k \<mapsto> v)"
  by (induction kvs) (auto simp: fun_eq_iff)

lemma set_prop_keys:
  "map fst (set_prop k v kvs) = (if k \<in> fst ` set kvs then map fst kvs else map fst kvs @ [k])"
proof (induction kvs)
  case Nil
  show ?case by simp
next
  case (Cons e kvs)
  show ?case
  proof (cases "fst e = k")
    case True
    then show ?thesis by (cases e) auto
  next
    case False
    with Cons show ?thesis by (cases e) (auto split: if_splits)
  qed
qed

lemma then_do_Resolved:
  "then_do r k = (Resolved, s') \<longleftrightarrow> (\<exists>s1. r = (Resolved, s1) \<and> k s1 = (Resolved, s'))"
  by (cases r; cases "fst r") auto

lemma chain_Cons_Resolved:
  "chain (k # ks) s = (Resolved, s') \<longleftrightarrow>
     (\<exists>s1. k s = (Resolved, s1) \<and> chain ks s1 = (Resolved, s'))"
  by (simp add: then_do_Resolved)

lemma successful_catch:
  assumes "successful (catch_do r report_error)"
  shows "r = (Resolved, snd (catch_do r report_error))"
proof (cases r)
  case (Pair o1 s1)
  with assms show ?thesis
    by (cases o1) (auto simp: successful_def report_error_def)
qed

lemma fs_step_Resolved:
  "fs_step op s = (Resolved, s') \<longleftrightarrow> (\<exists>f. op (fs s) = (None, f) \<and> s' = s\<lparr>fs := f\<rparr>)"
  by (auto simp: fs_step_def split: prod.splits option.splits)

lemma successful_accepted:
  assumes "successful (createApp env name s) \<or> successful (createApp_part_001 env name s)"
  shows "validForNewPackages (validateProjectName env (path_basename (path_resolve (cwd s) name)))"
proof (rule ccontr)
  assume "\<not> ?thesis"
  from rejected_name_run(1,2) [OF this] assms show False
    by (auto simp: successful_def)
qed

lemma validateDir_Resolved:
  assumes "validateDir env dir a s = (Resolved, s1)"
  shows "fs_lookup (fs s1) dir = Some Dir" and "cwd s1 = cwd s"
    and "fs_lookup (fs s) dir = None \<Longrightarrow> \<exists>f. ensureDir dir (fs s) = (None, f) \<and> fs s1 = f"
  using assms
  by (auto simp: validateDir_def fs_step_Resolved Let_def ensureDir_creates
      split: option.splits node.splits if_splits)

lemma saveProjectName_Resolved:
  assumes "saveProjectName env root a s = (Resolved, s')"
  shows "\<exists>text j j'. fs_lookup (fs s) (root @ [''package.json'']) = Some (File text) \<and>
           json_parse env text = Some j \<and> assign_name j a = Inr j' \<and>
           s' = s\<lparr>fs := fs_write (root @ [''package.json'']) (File (json_stringify env j')) (fs s)\<rparr>"
  using assms
  by (auto simp: saveProjectName_def Let_def path_join_def split: option.splits node.splits sum.splits)

lemma on_close_fs: "fs (snd (on_close env c a s)) = fs s"
  by (simp add: on_close_def split: option.splits)

lemma installDependencies_fs: "fs (snd (installDependencies env y s)) = fs s"
  by (simp add: installDependencies_def Let_def on_close_fs)

lemma installDependencies_part_001_fs: "fs (snd (installDependencies_part_001 env r s)) = fs s"
  by (cases "chdir r s"; cases "fst (chdir r s)")
     (auto simp: installDependencies_part_001_def Let_def on_close_fs chdir_def
       split: option.splits node.splits)

section \<open>Successful runs\<close>

lemma successful_part_001_stages:
  assumes "successful (createApp_part_001 env name s)"
  shows "\<exists>s1 f2 text j j'.
     validateDir env (path_resolve (cwd s) name) (path_basename (path_resolve (cwd s) name)) s
       = (Resolved, s1) \<and>
     copy (template env) (path_resolve (cwd s) name) (fs s1) = (None, f2) \<and>
     fs_lookup f2 (path_resolve (cwd s) name @ [''package.json'']) = Some (File text) \<and>
     json_parse env text = Some j \<and>
     assign_name j (path_basename (path_resolve (cwd s) name)) = Inr j' \<and>
     fs (snd (createApp_part_001 env name s)) =
       fs_write (path_resolve (cwd s) name @ [''package.json''])
         (File (json_stringify env j')) f2"
proof -
  let ?root = "path_resolve (cwd s) name"
  let ?app = "path_basename ?root"
  let ?r = "createApp_part_001 env name s"
  have ok: "validForNewPackages (validateProjectName env ?app)"
    using successful_accepted assms by blast
  note run = createApp_part_001_accepted [OF ok]
  from successful_catch [OF assms [unfolded run]]
  have "chain [validateDir env ?root ?app, fs_step (copy (template env) ?root),
               saveProjectName env ?root ?app, installDependencies_part_001 env ?root] s
        = (Resolved, snd ?r)"
    unfolding run .
  then obtain s1 s2 s3 where 1: "validateDir env ?root ?app s = (Resolved, s1)"
    and 2: "fs_step (copy (template env) ?root) s1 = (Resolved, s2)"
    and 3: "saveProjectName env ?root ?app s2 = (Resolved, s3)"
    and 4: "installDependencies_part_001 env ?root s3 = (Resolved, snd ?r)"
    unfolding chain_Cons_Resolved by auto
  from 2 obtain f2 where c: "copy (template env) ?root (fs s1) = (None, f2)" and s2: "fs s2 = f2"
    unfolding fs_step_Resolved by auto
  from saveProjectName_Resolved [OF 3] s2 obtain body j j' where
    m: "fs_lookup f2 (?root @ [''package.json'']) = Some (File body)"
      "json_parse env body = Some j" "assign_name j ?app = Inr j'"
      "fs s3 = fs_write (?root @ [''package.json'']) (File (json_stringify env j')) f2"
    by auto
  from installDependencies_part_001_fs [of env ?root s3] 4 have "fs (snd ?r) = fs s3" by simp
  with 1 c m show ?thesis by auto
qed

lemma git_stage_Resolved:
  assumes "then_do (chdir root s1) (\<lambda>s'. then_do (initGit env s')
              (\<lambda>s'. (Resolved, say (Stdout GitInitialized) s'))) = (Resolved, s2)"
  shows "fs s2 = mkdir_missing (root @ [''.git'']) (fs s1)"
  using assms
  by (auto simp: then_do_Resolved chdir_def initGit_def Let_def path_join_def
      split: option.splits node.splits if_splits)

lemma successful_index_stages:
  assumes "successful (createApp env name s)"
  shows "\<exists>s1 f2 f3 text j j'.
     validateDir env (path_resolve (cwd s) name) (path_basename (path_resolve (cwd s) name))
       (say (ExecSync ''yarnpkg --version'') s) = (Resolved, s1) \<and>
     copy (template env) (path_resolve (cwd s) name)
       (mkdir_missing (path_resolve (cwd s) name @ [''.git'']) (fs s1)) = (None, f2) \<and>
     renameSync (path_resolve (cwd s) name @ [''.npmignore''])
       (path_resolve (cwd s) name @ [''.gitignore'']) f2 = (None, f3) \<and>
     fs_lookup f3 (path_resolve (cwd s) name @ [''package.json'']) = Some (File text) \<and>
     json_parse env text = Some j \<and>
     assign_name j (path_basename (path_resolve (cwd s) name)) = Inr j' \<and>
     fs (snd (createApp env name s)) =
       fs_write (path_resolve (cwd s) name @ [''package.json''])
         (File (json_stringify env j')) f3"
proof -
  let ?root = "path_resolve (cwd s) name"
  let ?app = "path_basename ?root"
  let ?r = "createApp env name s"
  have ok: "validForNewPackages (validateProjectName env ?app)"
    using successful_accepted assms by blast
  note run = createApp_accepted [OF ok]
  from successful_catch [OF assms [unfolded run]]
  obtain s1 s2 s3 s4 s5 where 1: "validateDir env ?root ?app (say (ExecSync ''yarnpkg --version'') s) = (Resolved, s1)"
    and 2: "then_do (chdir ?root s1) (\<lambda>s'. then_do (initGit env s')
              (\<lambda>s'. (Resolved, say (Stdout GitInitialized) s'))) = (Resolved, s2)"
    and 3: "then_do (fs_step (copy (template env) ?root) s2)
              (fs_step (renameSync (path_join ?root ''.npmignore'') (path_join ?root ''.gitignore'')))
            = (Resolved, s3)"
    and 4: "saveProjectName env ?root ?app s3 = (Resolved, s4)"
    and 5: "installDependencies env (yarnpkg_ok env)
              (say (Stdout InstallStarting) (say (Stdout (ProjectCreated ?app)) s4)) = (Resolved, s5)"
    and 6: "(Resolved, showSuccessMessage ?root ?app (yarnpkg_ok env) s5) = (Resolved, snd ?r)"
    unfolding run chain_Cons_Resolved by auto
  from git_stage_Resolved [OF 2] have g: "fs s2 = mkdir_missing (?root @ [''.git'']) (fs s1)" .
  from 3 obtain f2 f3 where c: "copy (template env) ?root (fs s2) = (None, f2)"
    and r: "renameSync (?root @ [''.npmignore'']) (?root @ [''.gitignore'']) f2 = (None, f3)"
    and s3: "fs s3 = f3"
    unfolding then_do_Resolved fs_step_Resolved path_join_def by auto
  from saveProjectName_Resolved [OF 4] s3 obtain body j j' where
    m: "fs_lookup f3 (?root @ [''package.json'']) = Some (File body)"
      "json_parse env body = Some j" "assign_name j ?app = Inr j'"
      "fs s4 = fs_write (?root @ [''package.json'']) (File (json_stringify env j')) f3"
    by auto
  from installDependencies_fs [of env "yarnpkg_ok env"
      "say (Stdout InstallStarting) (say (Stdout (ProjectCreated ?app)) s4)"] 5
  have "fs s5 = fs s4" by simp
  moreover from 6 have "snd ?r = showSuccessMessage ?root ?app (yarnpkg_ok env) s5" by simp
  ultimately have "fs (snd ?r) = fs s4" by (simp add: showSuccessMessage_def)
  with 1 c [unfolded g] r m show ?thesis by auto
qed

lemma manifest_after_part_001:
  assumes "successful (createApp_part_001 env name s)"
    and "wf_template (template env)"
    and "([''package.json''], File body) \<in> set (listing (template env))"
  shows "\<exists>j j'. json_parse env body = Some j \<and>
           assign_name j (path_basename (path_resolve (cwd s) name)) = Inr j' \<and>
           fs_lookup (fs (snd (createApp_part_001 env name s)))
             (path_resolve (cwd s) name @ [''package.json'']) = Some (File (json_stringify env j'))"
proof -
  let ?root = "path_resolve (cwd s) name"
  from successful_part_001_stages [OF assms(1)] obtain s1 :: state and f2 b j j' where
    c: "copy (template env) ?root (fs s1) = (None, f2)"
    and m: "fs_lookup f2 (?root @ [''package.json'']) = Some (File b)"
      "json_parse env b = Some j" "assign_name j (path_basename ?root) = Inr j'"
    and e: "fs (snd (createApp_part_001 env name s)) =
       fs_write (?root @ [''package.json'']) (File (json_stringify env j')) f2"
    by blast
  from copy_lookup(2) [OF c assms(2,3)] m(1) have "b = body" by simp
  with m e show ?thesis by simp
qed

lemma manifest_after_index:
  assumes "successful (createApp env name s)"
    and "wf_template (template env)"
    and "([''package.json''], File body) \<in> set (listing (template env))"
  shows "\<exists>j j'. json_parse env body = Some j \<and>
           assign_name j (path_basename (path_resolve (cwd s) name)) = Inr j' \<and>
           fs_lookup (fs (snd (createApp env name s)))
             (path_resolve (cwd s) name @ [''package.json'']) = Some (File (json_stringify env j'))"
proof -
  let ?root = "path_resolve (cwd s) name"
  from successful_index_stages [OF assms(1)] obtain s1 :: state and f2 f3 b j j' where
    c: "copy (template env) ?root (mkdir_missing (?root @ [''.git'']) (fs s1)) = (None, f2)"
    and r: "renameSync (?root @ [''.npmignore'']) (?root @ [''.gitignore'']) f2 = (None, f3)"
    and m: "fs_lookup f3 (?root @ [''package.json'']) = Some (File b)"
      "json_parse env b = Some j" "assign_name j (path_basename ?root) = Inr j'"
    and e: "fs (snd (createApp env name s)) =
       fs_write (?root @ [''package.json'']) (File (json_stringify env j')) f3"
    by blast
  have "fs_lookup f3 (?root @ [''package.json'']) = fs_lookup f2 (?root @ [''package.json''])"
    by (rule renameSync_other [OF r]) simp_all
  with copy_lookup(2) [OF c assms(2,3)] m(1) have "b = body" by simp
  with m e show ?thesis by simp
qed



lemma preserved_part_001:
  assumes "successful (createApp_part_001 env name s)" and "wf_template (template env)"
  shows "template_preserved (template env) (path_resolve (cwd s) name)
           (fs (snd (createApp_part_001 env name s)))"
proof -
  let ?root = "path_resolve (cwd s) name"
  from successful_part_001_stages [OF assms(1)] obtain s1 :: state and f2 j' where
    v: "validateDir env ?root (path_basename ?root) s = (Resolved, s1)" and
    c: "copy (template env) ?root (fs s1) = (None, f2)"
    and e: "fs (snd (createApp_part_001 env name s)) =
       fs_write (?root @ [''package.json'']) (File (json_stringify env j')) f2"
    by blast
  show ?thesis
    unfolding template_preserved_def e
    using copy_lookup [OF c assms(2)] by (auto simp: is_file_def)
qed

lemma preserved_index:
  assumes "successful (createApp env name s)" and "wf_template (template env)"
  shows "template_preserved_renamed (template env) (path_resolve (cwd s) name)
           (fs (snd (createApp env name s)))"
proof -
  let ?root = "path_resolve (cwd s) name"
  from successful_index_stages [OF assms(1)] obtain s1 :: state and f2 f3 j' where
    v: "validateDir env ?root (path_basename ?root) (say (ExecSync ''yarnpkg --version'') s) = (Resolved, s1)" and
    c: "copy (template env) ?root (mkdir_missing (?root @ [''.git'']) (fs s1)) = (None, f2)"
    and r: "renameSync (?root @ [''.npmignore'']) (?root @ [''.gitignore'']) f2 = (None, f3)"
    and e: "fs (snd (createApp env name s)) =
       fs_write (?root @ [''package.json'']) (File (json_stringify env j')) f3"
    by blast
  note cl = copy_lookup [OF c assms(2)]
  have root: "fs_lookup f3 ?root = Some Dir"
    using renameSync_other [OF r, of ?root] cl(1) by simp
  have other: "fs_lookup f3 (?root @ rel) = Some n"
    if "(rel, n) \<in> set (listing (template env))" "\<not> prefix [''.npmignore''] rel"
      "\<not> prefix [''.gitignore''] rel" for rel n
    using renameSync_other [OF r, of "?root @ rel"] cl(2) [OF that(1)] that(2,3) by simp
  have gone: "fs_lookup f3 (?root @ [''.npmignore'']) = None"
    by (rule renameSync_source_gone [OF r]) simp
  have moved: "fs_lookup f3 (?root @ [''.gitignore'']) = Some n"
    if "([''.npmignore''], n) \<in> set (listing (template env))" "n \<noteq> Dir" for n
  proof -
    from that(2) obtain c where "n = File c" by (cases n) auto
    with cl(2) [OF that(1)] renameSync_file [OF r] show ?thesis by simp
  qed
  show ?thesis
    unfolding template_preserved_renamed_def e
    using root other gone moved by (auto simp: is_file_def)
qed

section \<open>Trailing segments and the git stage\<close>

lemma resolve_segments_append:
  "resolve_segments acc (xs @ ys) = resolve_segments (resolve_segments acc xs) ys"
  by (induction xs arbitrary: acc) auto

lemma path_resolve_split:
  assumes "n \<noteq> []"
  shows "path_resolve wd n =
     resolve_segments (if hd n = CHR ''/'' then [] else wd) (split_on CHR ''/'' n)"
  using assms by (cases n) (simp_all add: path_resolve_def)

lemma path_resolve_trailing:
  assumes "n \<noteq> []" and "CHR ''/'' \<notin> set seg"
  shows "path_resolve wd (n @ ''/'' @ seg) = resolve_segments (path_resolve wd n) [seg]"
proof -
  have ne: "n @ ''/'' @ seg \<noteq> []" using assms(1) by simp
  have hd: "hd (n @ ''/'' @ seg) = hd n" using assms(1) by simp
  have split: "split_on CHR ''/'' (n @ ''/'' @ seg) = split_on CHR ''/'' n @ [seg]"
    using split_on_append [OF assms(2), of n] by simp
  show ?thesis
    unfolding path_resolve_split [OF ne] path_resolve_split [OF assms(1)] hd split
    by (rule resolve_segments_append)
qed

lemma path_resolve_trailing_cases:
  assumes "n \<noteq> []"
  shows "path_resolve wd (n @ ''/'') = path_resolve wd n"
    and "path_resolve wd (n @ ''/.'') = path_resolve wd n"
    and "path_resolve wd (n @ ''/..'') = butlast (path_resolve wd n)"
  using path_resolve_trailing [OF assms, of "[]" wd] path_resolve_trailing [OF assms, of "''.''" wd]
    path_resolve_trailing [OF assms, of "''..''" wd]
  by simp_all

lemma rejected_name_printed:
  assumes "\<not> validForNewPackages (validateProjectName env (path_basename (path_resolve (cwd s) name)))"
  shows "Stderr (NamingRestrictions (path_basename (path_resolve (cwd s) name)))
           \<in> set (trace (snd (createApp env name s)))"
    and "Stderr (NamingRestrictions (path_basename (path_resolve (cwd s) name)))
           \<in> set (trace (snd (createApp_part_001 env name s)))"
    and "Stderr (NamingRestrictions (path_basename (path_resolve (cwd s) name)))
           \<in> set (trace (snd (createApp_part_000 env name s)))"
  using assms
  by (simp_all add: createApp_def createApp_part_001_def createApp_part_000_def Let_def
      checkAppName_def shouldUseYarn_def printValidationResults_def
      del: chain.simps split: option.splits)

lemma validator_frame:
  assumes "root = path_resolve (cwd s) name"
    and "appName = path_basename root"
    and "v appName = validateProjectName env appName"
  shows "script_part_000 (env\<lparr>validateProjectName := v\<rparr>) (Some name) s
              = script_part_000 env (Some name) s"
    and "script_part_001 (env\<lparr>validateProjectName := v\<rparr>) (Some name) s
              = script_part_001 env (Some name) s"
    and "script_index (env\<lparr>validateProjectName := v\<rparr>) (Some name) s
              = script_index env (Some name) s"
proof -
  have base: "path_basename (path_resolve (cwd s) name) = appName"
    using assms by simp
  have check: "checkAppName (env\<lparr>validateProjectName := v\<rparr>) appName = checkAppName env appName"
    using assms(3) by (intro ext) (simp add: checkAppName_def)
  show "script_part_000 (env\<lparr>validateProjectName := v\<rparr>) (Some name) s
              = script_part_000 env (Some name) s"
    unfolding script_part_000_def option.case createApp_part_000_def Let_def base check ..
  show "script_part_001 (env\<lparr>validateProjectName := v\<rparr>) (Some name) s
              = script_part_001 env (Some name) s"
    unfolding script_part_001_def option.case createApp_part_001_def Let_def base check
    by (simp del: chain.simps)
  show "script_index (env\<lparr>validateProjectName := v\<rparr>) (Some name) s
              = script_index env (Some name) s"
    unfolding script_index_def option.case createApp_def Let_def base check shouldUseYarn_def
    by (simp del: chain.simps)
qed

lemma git_stage_ok:
  assumes "fs_lookup (fs s1) root = Some Dir" and "git_init_ok env"
  shows "then_do (chdir root s1) (\<lambda>s'. then_do (initGit env s')
              (\<lambda>s'. (Resolved, say (Stdout GitInitialized) s')))
         = (Resolved,
            say (Stdout GitInitialized)
              ((say (ExecSync ''git init'') (s1\<lparr>cwd := root\<rparr>))
                 \<lparr>fs := mkdir_missing (path_join root ''.git'') (fs s1)\<rparr>))"
  using assms by (simp add: chdir_def initGit_def Let_def)

section \<open>The claims\<close>

text \<open>
  Claim C1.  After a successful run of index.js or part_001 on a well-formed
  template whose manifest parses as an object, the file at
  \<open>path.join(root, 'package.json')\<close> is the serialisation of that object
  with \<open>name\<close> set to the base name of the resolved target path, whatever
  name the template had: every other key has the value it had, and the keys
  keep their order (a missing \<open>name\<close> goes last).
\<close>

theorem manifest_name_patched:
  assumes "root = path_resolve (cwd s) name"
    and "appName = path_basename root"
    and "wf_template (template env)"
    and "([''package.json''], File body) \<in> set (listing (template env))"
    and "json_parse env body = Some (JObj kvs)"
    and "r \<in> {script_index env (Some name) s, script_part_001 env (Some name) s}"
    and "successful r"
  shows "fs_lookup (fs (snd r)) (path_join root ''package.json'') =
           Some (File (json_stringify env (JObj (set_prop ''name'' (JStr appName) kvs)))) \<and>
         map_of (set_prop ''name'' (JStr appName) kvs) ''name'' = Some (JStr appName) \<and>
         (\<forall>k. k \<noteq> ''name'' \<longrightarrow> map_of (set_prop ''name'' (JStr appName) kvs) k = map_of kvs k) \<and>
         map fst (set_prop ''name'' (JStr appName) kvs) =
           (if ''name'' \<in> fst ` set kvs then map fst kvs else map fst kvs @ [''name''])"
proof -
  have "\<exists>j j'. json_parse env body = Some j \<and> assign_name j appName = Inr j' \<and>
           fs_lookup (fs (snd r)) (root @ [''package.json'']) = Some (File (json_stringify env j'))"
    using assms(6)
  proof (elim insertE emptyE)
    assume "r = script_index env (Some name) s"
    with assms(7) have "successful (createApp env name s)" "r = createApp env name s"
      by (simp_all add: script_index_def)
    with manifest_after_index [OF this(1) assms(3,4)] assms(1,2) show ?thesis by simp
  next
    assume "r = script_part_001 env (Some name) s"
    with assms(7) have "successful (createApp_part_001 env name s)" "r = createApp_part_001 env name s"
      by (simp_all add: script_part_001_def)
    with manifest_after_part_001 [OF this(1) assms(3,4)] assms(1,2) show ?thesis by simp
  qed
  with assms(5) have "fs_lookup (fs (snd r)) (path_join root ''package.json'') =
           Some (File (json_stringify env (JObj (set_prop ''name'' (JStr appName) kvs))))"
    by (auto simp: path_join_def)
  then show ?thesis
    by (simp add: set_prop_lookup set_prop_keys)
qed

theorem manifest_name_patched_witness:
  "successful (script_index demo_env (Some ''my-app'') demo_state) \<and>
   fs_lookup (fs (snd (script_index demo_env (Some ''my-app'') demo_state)))
     [''home'', ''my-app'', ''package.json''] = Some (File ''name=my-app;version=0.1.0;'')"
proof -
  have root: "[''home'', ''my-app''] = path_resolve (cwd demo_state) ''my-app''"
    by (simp add: run_defs demo_defs)
  have app: "''my-app'' = path_basename [''home'', ''my-app'']"
    by (simp add: path_basename_def)
  have wf: "wf_template (template demo_env)"
    by (simp add: wf_template_def listing_def demo_defs)
  have m: "([''package.json''], File ''name=template;version=0.1.0;'') \<in> set (listing (template demo_env))"
    by (simp add: listing_def demo_defs)
  have p: "json_parse demo_env ''name=template;version=0.1.0;''
      = Some (JObj [(''name'', JStr ''template''), (''version'', JStr ''0.1.0'')])"
    by (simp add: demo_defs)
  have ok: "successful (script_index demo_env (Some ''my-app'') demo_state)"
    by (simp add: successful_def run_defs demo_defs)
  from manifest_name_patched [OF root app wf m p _ ok]
  have "fs_lookup (fs (snd (script_index demo_env (Some ''my-app'') demo_state)))
     (path_join [''home'', ''my-app''] ''package.json'') =
     Some (File (json_stringify demo_env
       (JObj (set_prop ''name'' (JStr ''my-app'') [(''name'', JStr ''template''), (''version'', JStr ''0.1.0'')]))))"
    by simp
  then show ?thesis using ok by (simp add: path_join_def demo_env_def)
qed

text \<open>
  Claim C2.  The claim as stated fails for index.js, which renames
  \<open>.npmignore\<close> to \<open>.gitignore\<close> after the copy: see the counterexample
  below.  As amended: after a successful run on a well-formed template the
  target is a directory that holds the manifest, patched: the serialisation of
  the template's manifest with the name assigned.  In part_001 every other
  entry of the template is found below the target unchanged; in index.js
  every other entry that is not at or below \<open>.npmignore\<close> or
  \<open>.gitignore\<close>, while nothing is left at \<open>.npmignore\<close> and a file
  \<open>.npmignore\<close> of the template is found at \<open>.gitignore\<close>.
\<close>

theorem template_materialized:
  assumes "root = path_resolve (cwd s) name"
    and "wf_template (template env)"
  shows "(successful (script_part_001 env (Some name) s) \<longrightarrow>
            template_preserved (template env) root (fs (snd (script_part_001 env (Some name) s))) \<and>
            (\<forall>body. ([''package.json''], File body) \<in> set (listing (template env)) \<longrightarrow>
               (\<exists>j j'. json_parse env body = Some j \<and>
                  assign_name j (path_basename root) = Inr j' \<and>
                  fs_lookup (fs (snd (script_part_001 env (Some name) s))) (root @ [''package.json''])
                    = Some (File (json_stringify env j'))))) \<and>
         (successful (script_index env (Some name) s) \<longrightarrow>
            template_preserved_renamed (template env) root (fs (snd (script_index env (Some name) s))) \<and>
            (\<forall>body. ([''package.json''], File body) \<in> set (listing (template env)) \<longrightarrow>
               (\<exists>j j'. json_parse env body = Some j \<and>
                  assign_name j (path_basename root) = Inr j' \<and>
                  fs_lookup (fs (snd (script_index env (Some name) s))) (root @ [''package.json''])
                    = Some (File (json_stringify env j')))))"
proof (intro conjI impI allI)
  assume ok: "successful (script_part_001 env (Some name) s)"
  then have ok': "successful (createApp_part_001 env name s)" by (simp add: script_part_001_def)
  from preserved_part_001 [OF ok' assms(2)] assms(1)
  show "template_preserved (template env) root (fs (snd (script_part_001 env (Some name) s)))"
    by (simp add: script_part_001_def)
  fix body assume "([''package.json''], File body) \<in> set (listing (template env))"
  from manifest_after_part_001 [OF ok' assms(2) this] assms(1)
  show "\<exists>j j'. json_parse env body = Some j \<and> assign_name j (path_basename root) = Inr j' \<and>
          fs_lookup (fs (snd (script_part_001 env (Some name) s))) (root @ [''package.json''])
            = Some (File (json_stringify env j'))"
    by (simp add: script_part_001_def)
next
  assume ok: "successful (script_index env (Some name) s)"
  then have ok': "successful (createApp env name s)" by (simp add: script_index_def)
  from preserved_index [OF ok' assms(2)] assms(1)
  show "template_preserved_renamed (template env) root (fs (snd (script_index env (Some name) s)))"
    by (simp add: script_index_def)
  fix body assume "([''package.json''], File body) \<in> set (listing (template env))"
  from manifest_after_index [OF ok' assms(2) this] assms(1)
  show "\<exists>j j'. json_parse env body = Some j \<and> assign_name j (path_basename root) = Inr j' \<and>
          fs_lookup (fs (snd (script_index env (Some name) s))) (root @ [''package.json''])
            = Some (File (json_stringify env j'))"
    by (simp add: script_index_def)
qed

theorem template_materialized_witness:
  "successful (script_part_001 demo_env (Some ''my-app'') demo_state) \<and>
   template_preserved (template demo_env) [''home'', ''my-app'']
     (fs (snd (script_part_001 demo_env (Some ''my-app'') demo_state))) \<and>
   successful (script_index demo_env (Some ''my-app'') demo_state) \<and>
   template_preserved_renamed (template demo_env) [''home'', ''my-app'']
     (fs (snd (script_index demo_env (Some ''my-app'') demo_state))) \<and>
   fs_lookup (fs (snd (script_part_001 demo_env (Some ''my-app'') demo_state)))
     [''home'', ''my-app'', ''src'', ''index.js''] = Some (File ''render()'') \<and>
   fs_lookup (fs (snd (script_part_001 demo_env (Some ''my-app'') demo_state)))
     [''home'', ''my-app'', ''package.json''] = Some (File ''name=my-app;version=0.1.0;'')"
proof -
  have root: "[''home'', ''my-app''] = path_resolve (cwd demo_state) ''my-app''"
    by (simp add: run_defs demo_defs)
  have wf: "wf_template (template demo_env)"
    by (simp add: wf_template_def listing_def demo_defs)
  have ok1: "successful (script_part_001 demo_env (Some ''my-app'') demo_state)"
    by (simp add: successful_def run_defs demo_defs)
  have ok2: "successful (script_index demo_env (Some ''my-app'') demo_state)"
    by (simp add: successful_def run_defs demo_defs)
  have l: "fs_lookup (fs (snd (script_part_001 demo_env (Some ''my-app'') demo_state)))
     [''home'', ''my-app'', ''src'', ''index.js''] = Some (File ''render()'')"
    "fs_lookup (fs (snd (script_part_001 demo_env (Some ''my-app'') demo_state)))
     [''home'', ''my-app'', ''package.json''] = Some (File ''name=my-app;version=0.1.0;'')"
    by (simp_all add: run_defs demo_defs)
  from template_materialized [OF root wf] ok1 ok2 l show ?thesis by blast
qed

theorem template_kept_counterexample:
  "successful (script_index demo_env (Some ''my-app'') demo_state) \<and>
   fs_lookup (fs demo_state) (path_resolve (cwd demo_state) ''my-app'') = None \<and>
   ([''.npmignore''], File ''node_modules'') \<in> set (listing (template demo_env)) \<and>
   fs_lookup (fs (snd (script_index demo_env (Some ''my-app'') demo_state)))
     (path_resolve (cwd demo_state) ''my-app'' @ [''.npmignore'']) = None \<and>
   \<not> template_preserved (template demo_env) (path_resolve (cwd demo_state) ''my-app'')
       (fs (snd (script_index demo_env (Some ''my-app'') demo_state)))"
proof -
  have ok: "successful (script_index demo_env (Some ''my-app'') demo_state)"
    by (simp add: successful_def run_defs demo_defs)
  have fresh: "fs_lookup (fs demo_state) (path_resolve (cwd demo_state) ''my-app'') = None"
    by (simp add: run_defs demo_defs)
  have m: "([''.npmignore''], File ''node_modules'') \<in> set (listing (template demo_env))"
    by (simp add: listing_def demo_defs)
  have gone: "fs_lookup (fs (snd (script_index demo_env (Some ''my-app'') demo_state)))
     (path_resolve (cwd demo_state) ''my-app'' @ [''.npmignore'']) = None"
    by (simp add: run_defs demo_defs)
  from m gone have "\<not> template_preserved (template demo_env) (path_resolve (cwd demo_state) ''my-app'')
       (fs (snd (script_index demo_env (Some ''my-app'') demo_state)))"
    unfolding template_preserved_def by force
  with ok fresh m gone show ?thesis by blast
qed

text \<open>
  Claim C3.  The claim as stated fails when the input ends before a line is
  read: the callback of the question is then never called, nothing exits, and
  the process ends with code 0; see the counterexample below.  As amended:
  when the target path exists as a directory (and the name passed validation),
  index.js and part_001 ask the overwrite question.  For every line that is
  answered other than \<open>y\<close>, the empty line included, the process exits with
  code 1 right after the question, the file system as it was.  When no line is
  read the promise stays pending and the process ends with code 0, the file
  system as it was too.  The run goes on exactly for the answer \<open>y\<close>: it
  is then the rest of the chain, which in part_001 starts with the copy and in
  index.js with \<open>git init\<close>, followed by the copy once that succeeded.
\<close>

theorem overwrite_prompt_outcomes:
  assumes "root = path_resolve (cwd s) name"
    and "appName = path_basename root"
    and "validForNewPackages (validateProjectName env appName)"
    and "fs_lookup (fs s) root = Some Dir"
  shows "Question appName \<in> set (trace (snd (script_index env (Some name) s))) \<and>
         Question appName \<in> set (trace (snd (script_part_001 env (Some name) s))) \<and>
         (\<forall>line. answer env = Some line \<and> line \<noteq> ''y'' \<longrightarrow>
            script_index env (Some name) s =
              (Exited 1, say (Question appName) (say (ExecSync ''yarnpkg --version'') s)) \<and>
            script_part_001 env (Some name) s = (Exited 1, say (Question appName) s) \<and>
            exit_code (fst (script_index env (Some name) s)) = 1 \<and>
            exit_code (fst (script_part_001 env (Some name) s)) = 1 \<and>
            fs (snd (script_index env (Some name) s)) = fs s \<and>
            fs (snd (script_part_001 env (Some name) s)) = fs s) \<and>
         (answer env = None \<longrightarrow>
            script_index env (Some name) s =
              (Pending, say (Question appName) (say (ExecSync ''yarnpkg --version'') s)) \<and>
            script_part_001 env (Some name) s = (Pending, say (Question appName) s) \<and>
            exit_code (fst (script_index env (Some name) s)) = 0 \<and>
            exit_code (fst (script_part_001 env (Some name) s)) = 0 \<and>
            fs (snd (script_index env (Some name) s)) = fs s \<and>
            fs (snd (script_part_001 env (Some name) s)) = fs s) \<and>
         (runs_on (fst (script_index env (Some name) s)) \<longleftrightarrow> answer env = Some ''y'') \<and>
         (runs_on (fst (script_part_001 env (Some name) s)) \<longleftrightarrow> answer env = Some ''y'') \<and>
         (answer env = Some ''y'' \<longrightarrow>
            script_part_001 env (Some name) s =
              catch_do
                (chain [fs_step (copy (template env) root),
                        saveProjectName env root appName,
                        installDependencies_part_001 env root]
                   (say (Question appName) s))
                report_error \<and>
            script_index env (Some name) s =
              catch_do
                (chain
                   [(\<lambda>s'. then_do (chdir root s') (\<lambda>s'. then_do (initGit env s')
                       (\<lambda>s'. (Resolved, say (Stdout GitInitialized) s')))),
                    (\<lambda>s'. then_do (fs_step (copy (template env) root) s')
                       (fs_step (renameSync (path_join root ''.npmignore'')
                          (path_join root ''.gitignore'')))),
                    saveProjectName env root appName,
                    (\<lambda>s'. installDependencies env (yarnpkg_ok env)
                       (say (Stdout InstallStarting) (say (Stdout (ProjectCreated appName)) s'))),
                    (\<lambda>s'. (Resolved, showSuccessMessage root appName (yarnpkg_ok env) s'))]
                   (say (Question appName) (say (ExecSync ''yarnpkg --version'') s)))
                report_error) \<and>
         (answer env = Some ''y'' \<and> git_init_ok env \<longrightarrow>
            script_index env (Some name) s =
              catch_do
                (chain
                   [(\<lambda>s'. then_do (fs_step (copy (template env) root) s')
                       (fs_step (renameSync (path_join root ''.npmignore'')
                          (path_join root ''.gitignore'')))),
                    saveProjectName env root appName,
                    (\<lambda>s'. installDependencies env (yarnpkg_ok env)
                       (say (Stdout InstallStarting) (say (Stdout (ProjectCreated appName)) s'))),
                    (\<lambda>s'. (Resolved, showSuccessMessage root appName (yarnpkg_ok env) s'))]
                   (say (Stdout GitInitialized)
                      ((say (ExecSync ''git init'')
                          ((say (Question appName) (say (ExecSync ''yarnpkg --version'') s))
                             \<lparr>cwd := root\<rparr>))
                         \<lparr>fs := mkdir_missing (path_join root ''.git'') (fs s)\<rparr>)))
                report_error)"
proof -
  from assms have ok: "validForNewPackages (validateProjectName env
      (path_basename (path_resolve (cwd s) name)))" by simp
  from assms have d: "fs_lookup (fs s) (path_resolve (cwd s) name) = Some Dir" by simp
  have q: "Question appName \<in> set (trace (snd (script_index env (Some name) s)))"
    "Question appName \<in> set (trace (snd (script_part_001 env (Some name) s)))"
    using prompt_stays_logged [OF ok d] assms(1,2)
    by (simp_all add: script_index_def script_part_001_def)
  have no: "script_index env (Some name) s =
              (Exited 1, say (Question appName) (say (ExecSync ''yarnpkg --version'') s))"
    "script_part_001 env (Some name) s = (Exited 1, say (Question appName) s)"
    if "answer env = Some line" "line \<noteq> ''y''" for line
    using declined_run [OF ok d that] assms(1,2)
    by (simp_all add: script_index_def script_part_001_def)
  have eof: "script_index env (Some name) s =
              (Pending, say (Question appName) (say (ExecSync ''yarnpkg --version'') s))"
    "script_part_001 env (Some name) s = (Pending, say (Question appName) s)"
    if "answer env = None"
    using unanswered_run [OF ok d that] assms(1,2)
    by (simp_all add: script_index_def script_part_001_def)
  have yes1: "script_part_001 env (Some name) s =
              catch_do
                (chain [fs_step (copy (template env) root),
                        saveProjectName env root appName,
                        installDependencies_part_001 env root]
                   (say (Question appName) s))
                report_error"
    if "answer env = Some ''y''"
    using confirmed_run(2) [OF ok d that] assms(1,2) by (simp add: script_part_001_def)
  have yes2: "script_index env (Some name) s =
              catch_do
                (chain
                   [(\<lambda>s'. then_do (chdir root s') (\<lambda>s'. then_do (initGit env s')
                       (\<lambda>s'. (Resolved, say (Stdout GitInitialized) s')))),
                    (\<lambda>s'. then_do (fs_step (copy (template env) root) s')
                       (fs_step (renameSync (path_join root ''.npmignore'')
                          (path_join root ''.gitignore'')))),
                    saveProjectName env root appName,
                    (\<lambda>s'. installDependencies env (yarnpkg_ok env)
                       (say (Stdout InstallStarting) (say (Stdout (ProjectCreated appName)) s'))),
                    (\<lambda>s'. (Resolved, showSuccessMessage root appName (yarnpkg_ok env) s'))]
                   (say (Question appName) (say (ExecSync ''yarnpkg --version'') s)))
                report_error"
    if "answer env = Some ''y''"
    using confirmed_run(1) [OF ok d that] assms(1,2)
    by (simp add: script_index_def del: chain.simps)
  have yes3: "script_index env (Some name) s =
              catch_do
                (chain
                   [(\<lambda>s'. then_do (fs_step (copy (template env) root) s')
                       (fs_step (renameSync (path_join root ''.npmignore'')
                          (path_join root ''.gitignore'')))),
                    saveProjectName env root appName,
                    (\<lambda>s'. installDependencies env (yarnpkg_ok env)
                       (say (Stdout InstallStarting) (say (Stdout (ProjectCreated appName)) s'))),
                    (\<lambda>s'. (Resolved, showSuccessMessage root appName (yarnpkg_ok env) s'))]
                   (say (Stdout GitInitialized)
                      ((say (ExecSync ''git init'')
                          ((say (Question appName) (say (ExecSync ''yarnpkg --version'') s))
                             \<lparr>cwd := root\<rparr>))
                         \<lparr>fs := mkdir_missing (path_join root ''.git'') (fs s)\<rparr>)))
                report_error"
    if "answer env = Some ''y''" "git_init_ok env"
  proof -
    have "fs_lookup (fs (say (Question appName) (say (ExecSync ''yarnpkg --version'') s))) root
        = Some Dir"
      using assms(4) by simp
    from git_stage_ok [OF this that(2)] show ?thesis
      unfolding yes2 [OF that(1)] by (simp del: chain.simps add: chain.simps(2) [of _ "_ # _"])
  qed
  have on1: "runs_on (fst (script_part_001 env (Some name) s))" if "answer env = Some ''y''"
    using part_001_outcome [OF ok] d that by (simp add: script_part_001_def)
  have on2: "runs_on (fst (script_index env (Some name) s))" if "answer env = Some ''y''"
    unfolding script_index_def option.case confirmed_run(1) [OF ok d that]
    by (rule stays_catch_report) (rule staysD [OF index_rest_stays])
  show ?thesis
  proof (cases "answer env")
    case None
    with q eof show ?thesis by (simp add: exit_code_def)
  next
    case (Some line)
    show ?thesis
    proof (cases "line = ''y''")
      case True
      with Some q yes1 yes2 yes3 on1 on2 show ?thesis by simp
    next
      case False
      with Some q no [of line] show ?thesis by (simp add: exit_code_def)
    qed
  qed
qed

theorem overwrite_prompt_outcomes_witness:
  "Question ''old'' \<in> set (trace (snd (script_index demo_env (Some ''old'') demo_state))) \<and>
   script_part_001 demo_env (Some ''old'') demo_state = (Exited 1, say (Question ''old'') demo_state) \<and>
   fs (snd (script_index demo_env (Some ''old'') demo_state)) = demo_fs \<and>
   exit_code (fst (script_index (demo_env\<lparr>answer := Some []\<rparr>) (Some ''old'') demo_state)) = 1 \<and>
   fst (script_part_001 (demo_env\<lparr>answer := Some ''y''\<rparr>) (Some ''old'') demo_state) = Resolved \<and>
   fs_lookup (fs (snd (script_part_001 (demo_env\<lparr>answer := Some ''y''\<rparr>) (Some ''old'') demo_state)))
     [''home'', ''old'', ''src'', ''index.js''] = Some (File ''render()'') \<and>
   fs_lookup (fs (snd (script_index (demo_env\<lparr>answer := Some ''y''\<rparr>) (Some ''old'') demo_state)))
     [''home'', ''old'', ''src'', ''index.js''] = Some (File ''render()'')"
proof -
  have root: "[''home'', ''old''] = path_resolve (cwd demo_state) ''old''"
    by (simp add: run_defs demo_defs)
  have app: "''old'' = path_basename [''home'', ''old'']"
    by (simp add: path_basename_def)
  have ok: "validForNewPackages (validateProjectName e ''old'')"
    if "validateProjectName e = demo_validate" for e :: env
    using that by (simp add: demo_validate_def)
  have dir: "fs_lookup (fs demo_state) [''home'', ''old''] = Some Dir"
    by (simp add: demo_defs fs_lookup_def)
  have e1: "validateProjectName demo_env = demo_validate"
    and e2: "validateProjectName (demo_env\<lparr>answer := Some []\<rparr>) = demo_validate"
    and no: "answer demo_env = Some ''n''"
    by (simp_all add: demo_env_def)
  from overwrite_prompt_outcomes [OF root app ok [OF e1] dir] no
  have 1: "Question ''old'' \<in> set (trace (snd (script_index demo_env (Some ''old'') demo_state)))"
    and 2: "script_part_001 demo_env (Some ''old'') demo_state = (Exited 1, say (Question ''old'') demo_state)"
    and 3: "fs (snd (script_index demo_env (Some ''old'') demo_state)) = fs demo_state"
    by simp_all
  have e: "answer (demo_env\<lparr>answer := Some []\<rparr>) = Some [] \<and> [] \<noteq> ''y''"
    by simp
  from overwrite_prompt_outcomes [OF root app ok [OF e2] dir] e
  have 4: "exit_code (fst (script_index (demo_env\<lparr>answer := Some []\<rparr>) (Some ''old'') demo_state)) = 1"
    by blast
  have 5: "fst (script_part_001 (demo_env\<lparr>answer := Some ''y''\<rparr>) (Some ''old'') demo_state) = Resolved"
    by (simp add: run_defs demo_defs)
  have 6: "fs_lookup (fs (snd (script_part_001 (demo_env\<lparr>answer := Some ''y''\<rparr>) (Some ''old'') demo_state)))
     [''home'', ''old'', ''src'', ''index.js''] = Some (File ''render()'')"
    by (simp add: run_defs demo_defs)
  have 7: "fs_lookup (fs (snd (script_index (demo_env\<lparr>answer := Some ''y''\<rparr>) (Some ''old'') demo_state)))
     [''home'', ''old'', ''src'', ''index.js''] = Some (File ''render()'')"
    by (simp add: run_defs demo_defs)
  from 1 2 3 4 5 6 7 show ?thesis by (simp add: demo_state_def)
qed

theorem unanswered_prompt_counterexample:
  "fs_lookup (fs demo_state) (path_resolve (cwd demo_state) ''old'') = Some Dir \<and>
   answer (demo_env\<lparr>answer := None\<rparr>) \<noteq> Some ''y'' \<and>
   Question ''old'' \<in> set (trace (snd (script_index (demo_env\<lparr>answer := None\<rparr>) (Some ''old'') demo_state))) \<and>
   exit_code (fst (script_index (demo_env\<lparr>answer := None\<rparr>) (Some ''old'') demo_state)) = 0 \<and>
   exit_code (fst (script_part_001 (demo_env\<lparr>answer := None\<rparr>) (Some ''old'') demo_state)) = 0"
  by (simp add: run_defs demo_defs exit_code_def)

text \<open>
  Claim C4.  When the target path exists and is a regular file, both index.js
  and part_001 exit with code 1 and leave the file system as it was: no
  directory is created and nothing is copied.  For a name that passed
  validation the last line printed is the notice that the name exists
  already.
\<close>

theorem non_directory_conflict_aborts:
  assumes "fs_lookup (fs s) (path_resolve (cwd s) name) = Some (File c)"
    and "appName = path_basename (path_resolve (cwd s) name)"
    and "r \<in> {script_index env (Some name) s, script_part_001 env (Some name) s}"
  shows "exit_code (fst r) = 1 \<and> fs (snd r) = fs s \<and>
         (validForNewPackages (validateProjectName env appName) \<longrightarrow>
            last (trace (snd r)) = Stderr (AlreadyExists appName))"
proof (cases "validForNewPackages (validateProjectName env appName)")
  case True
  with assms(2) have ok: "validForNewPackages (validateProjectName env
      (path_basename (path_resolve (cwd s) name)))" by simp
  from assms(3) conflict_run [OF ok assms(1)] assms(2) True show ?thesis
    by (auto simp: script_index_def script_part_001_def exit_code_def)
next
  case False
  with assms(2) have bad: "\<not> validForNewPackages (validateProjectName env
      (path_basename (path_resolve (cwd s) name)))" by simp
  from assms(3) rejected_name_run [OF bad] False show ?thesis
    by (auto simp: script_index_def script_part_001_def exit_code_def)
qed

theorem non_directory_conflict_aborts_witness:
  "exit_code (fst (script_index demo_env (Some ''notes'') demo_state)) = 1 \<and>
   fs (snd (script_index demo_env (Some ''notes'') demo_state)) = demo_fs \<and>
   last (trace (snd (script_index demo_env (Some ''notes'') demo_state))) = Stderr (AlreadyExists ''notes'')"
proof -
  have f: "fs_lookup (fs demo_state) (path_resolve (cwd demo_state) ''notes'') = Some (File ''todo'')"
    by (simp add: run_defs demo_defs)
  have app: "''notes'' = path_basename (path_resolve (cwd demo_state) ''notes'')"
    by (simp add: run_defs demo_defs)
  have ok: "validForNewPackages (validateProjectName demo_env ''notes'')"
    by (simp add: demo_defs)
  from non_directory_conflict_aborts [OF f app, of "script_index demo_env (Some ''notes'') demo_state" demo_env] ok
  show ?thesis by (simp add: demo_state_def)
qed

text \<open>
  Claim C5.  What \<open>installDependencies\<close> of index.js does when the child
  closes with a code other than 0.  In the npm branch the promise rejects with
  the command line \<open>npm install\<close>.  In the yarn branch \<open>args\<close> was never
  assigned, \<open>args.join\<close> throws inside the listener, and no rejection that
  names the command is produced.
\<close>

theorem installer_failure_report:
  assumes "close_code env \<noteq> Some 0"
  shows "installDependencies env False s =
           (Rejected (CommandFailed ''npm install''),
            say (Spawn ''npm'' (Some [''install'']) (cwd s)) s) \<and>
         installDependencies env True s =
           (Uncaught (TypeError ''join''), say (Spawn ''yarn'' None (cwd s)) s)"
  using assms by (simp add: installDependencies_def on_close_def)

theorem installer_failure_report_witness:
  "close_code (demo_env\<lparr>close_code := Some 1\<rparr>) \<noteq> Some 0 \<and>
   fst (installDependencies (demo_env\<lparr>close_code := Some 1\<rparr>) False demo_state)
     = Rejected (CommandFailed ''npm install'') \<and>
   fst (installDependencies (demo_env\<lparr>close_code := Some 1\<rparr>) True demo_state)
     = Uncaught (TypeError ''join'')"
proof -
  have c: "close_code (demo_env\<lparr>close_code := Some 1\<rparr>) \<noteq> Some 0" by simp
  from installer_failure_report [OF c, of demo_state] c show ?thesis by simp
qed

text \<open>
  Claim C6.  For a name the validation package rejects, every variant exits
  with code 1 and prints at least one violation line, provided the result of
  the package is well formed; for a name it accepts, the whole run prints no
  violation line and \<open>checkAppName\<close> returns normally.
\<close>

theorem checkAppName_verdict:
  assumes "appName = path_basename (path_resolve (cwd s) name)"
    and "v = validateProjectName env appName"
    and "well_formed_result v"
    and "r \<in> {script_index env (Some name) s, script_part_000 env (Some name) s,
               script_part_001 env (Some name) s}"
  shows "(\<not> validForNewPackages v \<longrightarrow>
            exit_code (fst r) = 1 \<and> length (violations s) < length (violations (snd r))) \<and>
         (validForNewPackages v \<longrightarrow>
            violations (snd r) = violations s \<and> (\<forall>s0. checkAppName env appName s0 = (Resolved, s0)))"
proof (intro conjI impI)
  assume bad: "\<not> validForNewPackages v"
  have more: "(case errors v of None \<Rightarrow> [] | Some es \<Rightarrow> es) @ (case warnings v of None \<Rightarrow> [] | Some ws \<Rightarrow> ws) \<noteq> []"
    using bad assms(3) by (auto simp: well_formed_result_def split: option.splits)
  have stop: "checkAppName env appName s0 =
      (Exited 1, snd (checkAppName env appName s0))" for s0
    using bad assms(2) by (simp add: checkAppName_def Let_def)
  have len: "length (violations s0) < length (violations (snd (checkAppName env appName s0)))" for s0
    using bad more assms(2) by (simp add: violations_checkAppName)
  have r_cases: "r = checkAppName env appName s \<or>
                 r = checkAppName env appName (say (ExecSync ''yarnpkg --version'') s)"
    using assms(1,4) stop [of s] stop [of "say (ExecSync ''yarnpkg --version'') s"]
    by (auto simp: script_index_def script_part_000_def script_part_001_def createApp_def
        createApp_part_000_def createApp_part_001_def Let_def shouldUseYarn_def then_do_def
        split: prod.splits settled.splits)
  have "fst r = Exited 1"
    using r_cases stop [of s] stop [of "say (ExecSync ''yarnpkg --version'') s"]
    by (metis fst_conv)
  then show "exit_code (fst r) = 1"
    by (simp add: exit_code_def)
  show "length (violations s) < length (violations (snd r))"
    using r_cases len [of s] len [of "say (ExecSync ''yarnpkg --version'') s"] by auto
next
  assume ok: "validForNewPackages v"
  show "violations (snd r) = violations s"
    using assms(1,2,4) ok createApp_violations [of env s name]
      createApp_part_001_violations [of env s name]
    by (auto simp: script_index_def script_part_000_def script_part_001_def
        createApp_part_000_def Let_def checkAppName_def)
  show "\<forall>s0. checkAppName env appName s0 = (Resolved, s0)"
    using ok assms(2) by (simp add: checkAppName_def Let_def)
qed

theorem checkAppName_verdict_witness:
  "exit_code (fst (script_part_000 demo_env (Some ''My_App'') demo_state)) = 1 \<and>
   violations (snd (script_part_000 demo_env (Some ''My_App'') demo_state))
     = [''name can only contain URL-friendly characters''] \<and>
   fst (script_part_000 demo_env (Some ''my-app'') demo_state) = Resolved \<and>
   violations (snd (script_index demo_env (Some ''my-app'') demo_state)) = []"
proof -
  have wf: "well_formed_result (validateProjectName demo_env a)" for a
    by (simp add: well_formed_result_def demo_env_def demo_validate_def)
  have bad: "\<not> validForNewPackages (validateProjectName demo_env ''My_App'')"
    by (simp add: demo_env_def demo_validate_def)
  have b1: "path_basename (path_resolve (cwd demo_state) ''My_App'') = ''My_App''"
    by (simp add: run_defs demo_defs)
  have good: "validForNewPackages (validateProjectName demo_env ''my-app'')"
    by (simp add: demo_env_def demo_validate_def)
  have b2: "path_basename (path_resolve (cwd demo_state) ''my-app'') = ''my-app''"
    by (simp add: run_defs demo_defs)
  have v0: "violations demo_state = []"
    by (simp add: violations_def demo_state_def)
  from checkAppName_verdict [OF b1 [symmetric] refl wf, of "script_part_000 demo_env (Some ''My_App'') demo_state"] bad
  have 1: "exit_code (fst (script_part_000 demo_env (Some ''My_App'') demo_state)) = 1" by simp
  from checkAppName_verdict [OF b2 [symmetric] refl wf, of "script_index demo_env (Some ''my-app'') demo_state"] good v0
  have 2: "violations (snd (script_index demo_env (Some ''my-app'') demo_state)) = []" by simp
  have 3: "violations (snd (script_part_000 demo_env (Some ''My_App'') demo_state))
     = [''name can only contain URL-friendly characters'']"
    by (simp add: run_defs demo_defs violations_def)
  have 4: "fst (script_part_000 demo_env (Some ''my-app'') demo_state) = Resolved"
    by (simp add: run_defs demo_defs)
  from 1 2 3 4 show ?thesis by blast
qed

text \<open>
  Claim C7.  A run of index.js with yarn available whose installer closes with
  code 1: the exception of the \<open>close\<close> listener escapes, the terminal handler
  prints nothing, and the exit code is 1, not that of a successful run.  With
  npm the same failure is printed by the handler and the exit code is 0.
\<close>

theorem yarn_installer_failure_crashes:
  "fst (script_index (demo_env\<lparr>yarnpkg_ok := True, close_code := Some 1\<rparr>) (Some ''my-app'') demo_state)
     = Uncaught (TypeError ''join'') \<and>
   exit_code (fst (script_index (demo_env\<lparr>yarnpkg_ok := True, close_code := Some 1\<rparr>)
     (Some ''my-app'') demo_state)) = 1 \<and>
   Stdout ErrorBanner \<notin> set (trace (snd (script_index (demo_env\<lparr>yarnpkg_ok := True, close_code := Some 1\<rparr>)
     (Some ''my-app'') demo_state))) \<and>
   exit_code (fst (script_index (demo_env\<lparr>yarnpkg_ok := True\<rparr>) (Some ''my-app'') demo_state)) = 0 \<and>
   exit_code (fst (script_index (demo_env\<lparr>close_code := Some 1\<rparr>) (Some ''my-app'') demo_state)) = 0 \<and>
   Stderr (ErrorValue (CommandFailed ''npm install''))
     \<in> set (trace (snd (script_index (demo_env\<lparr>close_code := Some 1\<rparr>) (Some ''my-app'') demo_state)))"
  by (simp add: run_defs demo_defs exit_code_def)

text \<open>
  Claim C8.  At the overwrite question \<open>validateDir\<close> resolves exactly for
  the answer \<open>y\<close> and calls \<open>process.exit(1)\<close> for every other line that
  is answered; \<open>Y\<close>, \<open>yes\<close> and \<open>y\<close> with a space before or after it
  are among them.  The exit code of the run is then 1 in index.js and in
  part_001.
\<close>

theorem only_lowercase_y_confirms:
  assumes "fs_lookup (fs s) dir = Some Dir"
  shows "(fst (validateDir env dir appName s) = Resolved \<longleftrightarrow> answer env = Some ''y'') \<and>
         (fst (validateDir env dir appName s) = Exited 1 \<longleftrightarrow>
            (\<exists>line. answer env = Some line \<and> line \<noteq> ''y'')) \<and>
         fst (validateDir (env\<lparr>answer := Some ''Y''\<rparr>) dir appName s) = Exited 1 \<and>
         fst (validateDir (env\<lparr>answer := Some ''yes''\<rparr>) dir appName s) = Exited 1 \<and>
         fst (validateDir (env\<lparr>answer := Some '' y''\<rparr>) dir appName s) = Exited 1 \<and>
         fst (validateDir (env\<lparr>answer := Some ''y ''\<rparr>) dir appName s) = Exited 1 \<and>
         (dir = path_resolve (cwd s) name \<and> appName = path_basename dir \<and>
          validForNewPackages (validateProjectName env appName) \<and>
          (\<exists>line. answer env = Some line \<and> line \<noteq> ''y'') \<longrightarrow>
            exit_code (fst (script_index env (Some name) s)) = 1 \<and>
            exit_code (fst (script_part_001 env (Some name) s)) = 1)"
proof -
  have run: "exit_code (fst (script_index env (Some name) s)) = 1 \<and>
            exit_code (fst (script_part_001 env (Some name) s)) = 1"
    if "dir = path_resolve (cwd s) name" "appName = path_basename dir"
      "validForNewPackages (validateProjectName env appName)"
      "answer env = Some line" "line \<noteq> ''y''" for line
  proof -
    from that have ok: "validForNewPackages (validateProjectName env
      (path_basename (path_resolve (cwd s) name)))" by simp
    from assms that(1) have d: "fs_lookup (fs s) (path_resolve (cwd s) name) = Some Dir" by simp
    from declined_run [OF ok d that(4,5)] show ?thesis
      by (simp add: script_index_def script_part_001_def exit_code_def)
  qed
  have stage: "(fst (validateDir env dir appName s) = Resolved \<longleftrightarrow> answer env = Some ''y'') \<and>
         (fst (validateDir env dir appName s) = Exited 1 \<longleftrightarrow>
            (\<exists>line. answer env = Some line \<and> line \<noteq> ''y''))" for env
    by (cases "answer env") (simp_all add: validateDir_dir [OF assms])
  have inst: "fst (validateDir (env\<lparr>answer := Some a\<rparr>) dir appName s) = Exited 1"
    if "a \<noteq> ''y''" for a
    using that by (simp add: validateDir_dir [OF assms])
  show ?thesis
    using stage [of env] inst [of "''Y''"] inst [of "''yes''"] inst [of "'' y''"] inst [of "''y ''"] run
    by (intro conjI impI) auto
qed

theorem only_lowercase_y_confirms_witness:
  "fs_lookup (fs demo_state) [''home'', ''old''] = Some Dir \<and>
   fst (validateDir (demo_env\<lparr>answer := Some ''y''\<rparr>) [''home'', ''old''] ''old'' demo_state) = Resolved \<and>
   fst (validateDir (demo_env\<lparr>answer := Some ''Y''\<rparr>) [''home'', ''old''] ''old'' demo_state) = Exited 1 \<and>
   fst (validateDir (demo_env\<lparr>answer := Some ''yes''\<rparr>) [''home'', ''old''] ''old'' demo_state) = Exited 1 \<and>
   fst (validateDir (demo_env\<lparr>answer := Some []\<rparr>) [''home'', ''old''] ''old'' demo_state) = Exited 1"
proof -
  have dir: "fs_lookup (fs demo_state) [''home'', ''old''] = Some Dir"
    by (simp add: demo_defs fs_lookup_def)
  from only_lowercase_y_confirms [OF dir, of "demo_env\<lparr>answer := Some ''y''\<rparr>" "''old''"]
    only_lowercase_y_confirms [OF dir, of "demo_env\<lparr>answer := Some []\<rparr>" "''old''"]
  show ?thesis using dir by simp
qed

text \<open>
  Claim C9.  For every argument, the name that is validated is the base name
  of the resolved target path, not the argument.  When the validator rejects
  that base name every variant exits with code 1, names the base name in its
  message and leaves the file system alone; when it accepts it, the run goes
  past validation: part_000 returns and the other two variants enter their
  chain with the resolved path and the base name.  The run is the same for all
  validators that agree on the base name, whatever they say about the
  argument itself.  An argument that ends in a separator and a plain
  component has that component as its base name; a trailing separator or
  \<open>.\<close> segment changes nothing, and a trailing \<open>..\<close> removes the last
  component of the resolved path.
\<close>

theorem validation_checks_basename:
  assumes "root = path_resolve (cwd s) name"
    and "appName = path_basename root"
  shows "(\<not> validForNewPackages (validateProjectName env appName) \<longrightarrow>
            (\<forall>r \<in> {script_index env (Some name) s, script_part_000 env (Some name) s,
                     script_part_001 env (Some name) s}.
               fst r = Exited 1 \<and> fs (snd r) = fs s \<and>
               Stderr (NamingRestrictions appName) \<in> set (trace (snd r)))) \<and>
         (validForNewPackages (validateProjectName env appName) \<longrightarrow>
            script_part_000 env (Some name) s = (Resolved, s) \<and>
            script_part_001 env (Some name) s =
              catch_do
                (chain [validateDir env root appName,
                        fs_step (copy (template env) root),
                        saveProjectName env root appName,
                        installDependencies_part_001 env root] s)
                report_error \<and>
            script_index env (Some name) s =
              catch_do
                (chain
                   [validateDir env root appName,
                    (\<lambda>s'. then_do (chdir root s') (\<lambda>s'. then_do (initGit env s')
                       (\<lambda>s'. (Resolved, say (Stdout GitInitialized) s')))),
                    (\<lambda>s'. then_do (fs_step (copy (template env) root) s')
                       (fs_step (renameSync (path_join root ''.npmignore'')
                          (path_join root ''.gitignore'')))),
                    saveProjectName env root appName,
                    (\<lambda>s'. installDependencies env (yarnpkg_ok env)
                       (say (Stdout InstallStarting) (say (Stdout (ProjectCreated appName)) s'))),
                    (\<lambda>s'. (Resolved, showSuccessMessage root appName (yarnpkg_ok env) s'))]
                   (say (ExecSync ''yarnpkg --version'') s))
                report_error) \<and>
         (\<forall>v. v appName = validateProjectName env appName \<longrightarrow>
            script_part_000 (env\<lparr>validateProjectName := v\<rparr>) (Some name) s
              = script_part_000 env (Some name) s \<and>
            script_part_001 (env\<lparr>validateProjectName := v\<rparr>) (Some name) s
              = script_part_001 env (Some name) s \<and>
            script_index (env\<lparr>validateProjectName := v\<rparr>) (Some name) s
              = script_index env (Some name) s) \<and>
         (\<forall>d b. plain_component b \<and> name = d @ ''/'' @ b \<longrightarrow> appName = b) \<and>
         (\<forall>b. plain_component b \<and> name = b \<longrightarrow> appName = b) \<and>
         (\<forall>n. n \<noteq> [] \<and> name = n @ ''/'' \<longrightarrow> root = path_resolve (cwd s) n) \<and>
         (\<forall>n. n \<noteq> [] \<and> name = n @ ''/.'' \<longrightarrow> root = path_resolve (cwd s) n) \<and>
         (\<forall>n. n \<noteq> [] \<and> name = n @ ''/..'' \<longrightarrow> root = butlast (path_resolve (cwd s) n))"
proof -
  have base: "path_basename (path_resolve (cwd s) name) = appName"
    using assms by simp
  have rej: "fst r = Exited 1 \<and> fs (snd r) = fs s \<and>
               Stderr (NamingRestrictions appName) \<in> set (trace (snd r))"
    if "\<not> validForNewPackages (validateProjectName env appName)"
      "r \<in> {script_index env (Some name) s, script_part_000 env (Some name) s,
             script_part_001 env (Some name) s}" for r
  proof -
    from that(1) base have bad: "\<not> validForNewPackages (validateProjectName env
        (path_basename (path_resolve (cwd s) name)))" by simp
    note R = rejected_name_run [OF bad] and Pr = rejected_name_printed [OF bad, unfolded base]
    from that(2) show ?thesis
      unfolding insert_iff empty_iff
      by (elim disjE)
         (simp_all add: script_index_def script_part_000_def script_part_001_def R Pr)
  qed
  have acc: "script_part_000 env (Some name) s = (Resolved, s)"
    "script_part_001 env (Some name) s =
       catch_do
         (chain [validateDir env root appName,
                 fs_step (copy (template env) root),
                 saveProjectName env root appName,
                 installDependencies_part_001 env root] s)
         report_error"
    "script_index env (Some name) s =
       catch_do
         (chain
            [validateDir env root appName,
             (\<lambda>s'. then_do (chdir root s') (\<lambda>s'. then_do (initGit env s')
                (\<lambda>s'. (Resolved, say (Stdout GitInitialized) s')))),
             (\<lambda>s'. then_do (fs_step (copy (template env) root) s')
                (fs_step (renameSync (path_join root ''.npmignore'')
                   (path_join root ''.gitignore'')))),
             saveProjectName env root appName,
             (\<lambda>s'. installDependencies env (yarnpkg_ok env)
                (say (Stdout InstallStarting) (say (Stdout (ProjectCreated appName)) s'))),
             (\<lambda>s'. (Resolved, showSuccessMessage root appName (yarnpkg_ok env) s'))]
            (say (ExecSync ''yarnpkg --version'') s))
         report_error"
    if "validForNewPackages (validateProjectName env appName)"
  proof -
    from that base have ok: "validForNewPackages (validateProjectName env
        (path_basename (path_resolve (cwd s) name)))" by simp
    show "script_part_000 env (Some name) s = (Resolved, s)"
      using ok by (simp add: script_part_000_def createApp_part_000_def checkAppName_def)
    show "script_part_001 env (Some name) s =
       catch_do
         (chain [validateDir env root appName,
                 fs_step (copy (template env) root),
                 saveProjectName env root appName,
                 installDependencies_part_001 env root] s)
         report_error"
      unfolding script_part_001_def option.case createApp_part_001_accepted [OF ok]
        assms(2) assms(1) ..
    show "script_index env (Some name) s =
       catch_do
         (chain
            [validateDir env root appName,
             (\<lambda>s'. then_do (chdir root s') (\<lambda>s'. then_do (initGit env s')
                (\<lambda>s'. (Resolved, say (Stdout GitInitialized) s')))),
             (\<lambda>s'. then_do (fs_step (copy (template env) root) s')
                (fs_step (renameSync (path_join root ''.npmignore'')
                   (path_join root ''.gitignore'')))),
             saveProjectName env root appName,
             (\<lambda>s'. installDependencies env (yarnpkg_ok env)
                (say (Stdout InstallStarting) (say (Stdout (ProjectCreated appName)) s'))),
             (\<lambda>s'. (Resolved, showSuccessMessage root appName (yarnpkg_ok env) s'))]
            (say (ExecSync ''yarnpkg --version'') s))
         report_error"
      unfolding script_index_def option.case createApp_accepted [OF ok]
        assms(2) assms(1) ..
  qed
  have frame: "script_part_000 (env\<lparr>validateProjectName := v\<rparr>) (Some name) s
              = script_part_000 env (Some name) s \<and>
            script_part_001 (env\<lparr>validateProjectName := v\<rparr>) (Some name) s
              = script_part_001 env (Some name) s \<and>
            script_index (env\<lparr>validateProjectName := v\<rparr>) (Some name) s
              = script_index env (Some name) s"
    if "v appName = validateProjectName env appName" for v
    by (intro conjI validator_frame [where v = v and env = env, OF assms that])
  have p1: "appName = b" if "plain_component b" "name = d @ ''/'' @ b" for d b
    using basename_of_separated [OF that(1), of "cwd s" d] that(2) base by simp
  have p2: "appName = b" if "plain_component b" "name = b" for b
    using basename_of_plain [OF that(1), of "cwd s"] that(2) base by simp
  have p3: "root = path_resolve (cwd s) n" if "n \<noteq> []" "name = n @ ''/''" for n
    using path_resolve_trailing_cases(1) [OF that(1), of "cwd s"] that(2) assms(1) by simp
  have p4: "root = path_resolve (cwd s) n" if "n \<noteq> []" "name = n @ ''/.''" for n
    using path_resolve_trailing_cases(2) [OF that(1), of "cwd s"] that(2) assms(1) by simp
  have p5: "root = butlast (path_resolve (cwd s) n)" if "n \<noteq> []" "name = n @ ''/..''" for n
    using path_resolve_trailing_cases(3) [OF that(1), of "cwd s"] that(2) assms(1) by simp
  have A: "\<not> validForNewPackages (validateProjectName env appName) \<longrightarrow>
            (\<forall>r \<in> {script_index env (Some name) s, script_part_000 env (Some name) s,
                     script_part_001 env (Some name) s}.
               fst r = Exited 1 \<and> fs (snd r) = fs s \<and>
               Stderr (NamingRestrictions appName) \<in> set (trace (snd r)))"
    by (intro impI ballI) (erule (1) rej)
  have B: "validForNewPackages (validateProjectName env appName) \<longrightarrow>
            script_part_000 env (Some name) s = (Resolved, s) \<and>
            script_part_001 env (Some name) s =
              catch_do
                (chain [validateDir env root appName,
                        fs_step (copy (template env) root),
                        saveProjectName env root appName,
                        installDependencies_part_001 env root] s)
                report_error \<and>
            script_index env (Some name) s =
              catch_do
                (chain
                   [validateDir env root appName,
                    (\<lambda>s'. then_do (chdir root s') (\<lambda>s'. then_do (initGit env s')
                       (\<lambda>s'. (Resolved, say (Stdout GitInitialized) s')))),
                    (\<lambda>s'. then_do (fs_step (copy (template env) root) s')
                       (fs_step (renameSync (path_join root ''.npmignore'')
                          (path_join root ''.gitignore'')))),
                    saveProjectName env root appName,
                    (\<lambda>s'. installDependencies env (yarnpkg_ok env)
                       (say (Stdout InstallStarting) (say (Stdout (ProjectCreated appName)) s'))),
                    (\<lambda>s'. (Resolved, showSuccessMessage root appName (yarnpkg_ok env) s'))]
                   (say (ExecSync ''yarnpkg --version'') s))
                report_error"
    by (intro impI conjI) (erule acc)+
  have C: "\<forall>v. v appName = validateProjectName env appName \<longrightarrow>
            script_part_000 (env\<lparr>validateProjectName := v\<rparr>) (Some name) s
              = script_part_000 env (Some name) s \<and>
            script_part_001 (env\<lparr>validateProjectName := v\<rparr>) (Some name) s
              = script_part_001 env (Some name) s \<and>
            script_index (env\<lparr>validateProjectName := v\<rparr>) (Some name) s
              = script_index env (Some name) s"
    by (intro allI impI) (erule frame)
  have D: "\<forall>d b. plain_component b \<and> name = d @ ''/'' @ b \<longrightarrow> appName = b"
    by (intro allI impI, elim conjE) (erule (1) p1)
  have E: "\<forall>b. plain_component b \<and> name = b \<longrightarrow> appName = b"
    by (intro allI impI, elim conjE) (erule (1) p2)
  have F: "\<forall>n. n \<noteq> [] \<and> name = n @ ''/'' \<longrightarrow> root = path_resolve (cwd s) n"
    by (intro allI impI, elim conjE) (erule (1) p3)
  have G: "\<forall>n. n \<noteq> [] \<and> name = n @ ''/.'' \<longrightarrow> root = path_resolve (cwd s) n"
    by (intro allI impI, elim conjE) (erule (1) p4)
  have H: "\<forall>n. n \<noteq> [] \<and> name = n @ ''/..'' \<longrightarrow> root = butlast (path_resolve (cwd s) n)"
    by (intro allI impI, elim conjE) (erule (1) p5)
  show ?thesis
    using A B C D E F G H by (intro conjI) assumption+
qed

theorem validation_checks_basename_witness:
  "\<not> validForNewPackages (validateProjectName demo_env ''sub/my-app'') \<and>
   script_part_000 demo_env (Some ''sub/my-app'') demo_state = (Resolved, demo_state) \<and>
   validForNewPackages (validateProjectName demo_env ''sub'') \<and>
   fst (script_part_001 demo_env (Some ''sub/My_App'') demo_state) = Exited 1 \<and>
   Stderr (NamingRestrictions ''My_App'')
     \<in> set (trace (snd (script_part_001 demo_env (Some ''sub/My_App'') demo_state))) \<and>
   path_resolve (cwd demo_state) ''my-app/'' = [''home'', ''my-app''] \<and>
   path_resolve (cwd demo_state) ''sub/.'' = [''home'', ''sub''] \<and>
   path_resolve (cwd demo_state) ''x/..'' = [''home'']"
proof -
  have bad: "\<not> validForNewPackages (validateProjectName demo_env ''sub/my-app'')"
    and ok: "validForNewPackages (validateProjectName demo_env ''my-app'')"
    and ok': "validForNewPackages (validateProjectName demo_env ''sub'')"
    and bad': "\<not> validForNewPackages (validateProjectName demo_env ''My_App'')"
    by (simp_all add: demo_defs)
  have r1: "[''home'', ''sub'', ''my-app''] = path_resolve (cwd demo_state) ''sub/my-app''"
    and r2: "[''home'', ''sub'', ''My_App''] = path_resolve (cwd demo_state) ''sub/My_App''"
    and r3: "[''home'', ''my-app''] = path_resolve (cwd demo_state) ''my-app/''"
    and r4: "[''home'', ''sub''] = path_resolve (cwd demo_state) ''sub/.''"
    and r5: "[''home''] = path_resolve (cwd demo_state) ''x/..''"
    by (simp_all add: run_defs demo_defs)
  have b1: "''my-app'' = path_basename [''home'', ''sub'', ''my-app'']"
    and b2: "''My_App'' = path_basename [''home'', ''sub'', ''My_App'']"
    by (simp_all add: path_basename_def)
  note t1 = validation_checks_basename [OF r1 b1, of demo_env]
  from t1 [THEN conjunct2, THEN conjunct1, THEN mp, OF ok, THEN conjunct1]
  have 1: "script_part_000 demo_env (Some ''sub/my-app'') demo_state = (Resolved, demo_state)" .
  have m: "script_part_001 demo_env (Some ''sub/My_App'') demo_state
      \<in> {script_index demo_env (Some ''sub/My_App'') demo_state,
          script_part_000 demo_env (Some ''sub/My_App'') demo_state,
          script_part_001 demo_env (Some ''sub/My_App'') demo_state}"
    by (intro insertI1 insertI2)
  note t2 = validation_checks_basename [OF r2 b2, of demo_env]
  from bspec [OF t2 [THEN conjunct1, THEN mp, OF bad'] m]
  have 2: "fst (script_part_001 demo_env (Some ''sub/My_App'') demo_state) = Exited 1 \<and>
    Stderr (NamingRestrictions ''My_App'')
     \<in> set (trace (snd (script_part_001 demo_env (Some ''sub/My_App'') demo_state)))"
    by (elim conjE) (intro conjI)
  from bad 1 ok' 2 r3 [symmetric] r4 [symmetric] r5 [symmetric] show ?thesis
    by (intro conjI) (elim conjE, assumption)+
qed

text \<open>
  Claim C10.  In part_000 a run with an accepted name returns the state it
  started from: the file system, the working directory and the record of
  console lines and subprocesses are unchanged, and the exit code is 0.
\<close>

theorem createApp_part_000_no_effects:
  assumes "validForNewPackages (validateProjectName env (path_basename (path_resolve (cwd s) name)))"
  shows "createApp_part_000 env name s = (Resolved, s) \<and>
         script_part_000 env (Some name) s = (Resolved, s) \<and>
         exit_code (fst (script_part_000 env (Some name) s)) = 0"
  using assms
  by (simp add: script_part_000_def createApp_part_000_def checkAppName_def Let_def exit_code_def)

theorem createApp_part_000_no_effects_witness:
  "script_part_000 demo_env (Some ''my-app'') demo_state = (Resolved, demo_state) \<and>
   fs (snd (script_part_000 demo_env (Some ''my-app'') demo_state)) = demo_fs \<and>
   trace (snd (script_part_000 demo_env (Some ''my-app'') demo_state)) = []"
proof -
  have ok: "validForNewPackages (validateProjectName demo_env
              (path_basename (path_resolve (cwd demo_state) ''my-app'')))"
    by (simp add: run_defs demo_defs)
  from createApp_part_000_no_effects [OF ok]
  have "script_part_000 demo_env (Some ''my-app'') demo_state = (Resolved, demo_state)" by simp
  then show ?thesis by (simp add: demo_state_def)
qed

text \<open>
  The exit codes.  A missing argument and a rejected name give 1.  For an
  accepted name part_001 gives 1 exactly when the target is a regular file or
  an existing directory whose overwrite is answered with another line than
  \<open>y\<close>, and 0 otherwise (also when no line is read),
  whatever fails later; index.js does the same whenever yarn is not used or
  the installer closes with 0.  A failing \<open>npm install\<close> is printed by the
  terminal handler, which resolves.
\<close>

theorem exit_codes:
  assumes "v = validForNewPackages (validateProjectName env (path_basename (path_resolve (cwd s) name)))"
    and "after_validation =
           (case fs_lookup (fs s) (path_resolve (cwd s) name) of
              None \<Rightarrow> 0
            | Some Dir \<Rightarrow>
                (case answer env of
                   None \<Rightarrow> 0
                 | Some line \<Rightarrow> if line = ''y'' then 0 else 1)
            | Some (File _) \<Rightarrow> 1)"
  shows "exit_code (fst (script_index env None s)) = 1 \<and>
         exit_code (fst (script_part_000 env None s)) = 1 \<and>
         exit_code (fst (script_part_001 env None s)) = 1 \<and>
         exit_code (fst (script_part_000 env (Some name) s)) = (if v then 0 else 1) \<and>
         exit_code (fst (script_part_001 env (Some name) s)) = (if v then after_validation else 1) \<and>
         (\<not> yarnpkg_ok env \<or> close_code env = Some 0 \<longrightarrow>
            exit_code (fst (script_index env (Some name) s)) = (if v then after_validation else 1)) \<and>
         (close_code env \<noteq> Some 0 \<longrightarrow>
            catch_do (installDependencies env False s) report_error =
              (Resolved,
               say (Stderr (ErrorValue (CommandFailed ''npm install'')))
                 (say (Stdout ErrorBanner) (say (Spawn ''npm'' (Some [''install'']) (cwd s)) s))))"
proof (cases v)
  case True
  with assms(1) have ok: "validForNewPackages (validateProjectName env
      (path_basename (path_resolve (cwd s) name)))" by simp
  have 0: "exit_code (fst (script_part_000 env (Some name) s)) = 0"
    using ok by (simp add: script_part_000_def createApp_part_000_def checkAppName_def exit_code_def)
  have 1: "exit_code (fst (script_part_001 env (Some name) s)) = after_validation"
    unfolding script_part_001_def option.case part_001_outcome [OF ok] assms(2)
    by (simp add: exit_code_def split: option.splits node.splits)
  have 2: "exit_code (fst (script_index env (Some name) s)) = after_validation"
    if "\<not> yarnpkg_ok env \<or> close_code env = Some 0"
    unfolding script_index_def option.case index_outcome [OF ok that] assms(2)
    by (simp add: exit_code_def split: option.splits node.splits)
  from True 0 1 2 show ?thesis
    by (auto simp: script_index_def script_part_000_def script_part_001_def usage_def exit_code_def
        installDependencies_def on_close_def report_error_def)
next
  case False
  with assms(1) have bad: "\<not> validForNewPackages (validateProjectName env
      (path_basename (path_resolve (cwd s) name)))" by simp
  from False rejected_name_run(1,2,3) [OF bad] show ?thesis
    by (auto simp: script_index_def script_part_000_def script_part_001_def usage_def exit_code_def
        installDependencies_def on_close_def report_error_def)
qed

theorem exit_codes_witness:
  "exit_code (fst (script_part_001 demo_env (Some ''my-app'') demo_state)) = 0 \<and>
   exit_code (fst (script_part_001 (demo_env\<lparr>close_code := Some 1\<rparr>) (Some ''my-app'') demo_state)) = 0 \<and>
   exit_code (fst (script_part_001 demo_env (Some ''old'') demo_state)) = 1 \<and>
   exit_code (fst (script_part_001 demo_env None demo_state)) = 1"
proof -
  have v1: "validForNewPackages (validateProjectName demo_env
      (path_basename (path_resolve (cwd demo_state) ''my-app'')))"
    and v2: "validForNewPackages (validateProjectName (demo_env\<lparr>close_code := Some 1\<rparr>)
      (path_basename (path_resolve (cwd demo_state) ''my-app'')))"
    and v3: "validForNewPackages (validateProjectName demo_env
      (path_basename (path_resolve (cwd demo_state) ''old'')))"
    by (simp_all add: run_defs demo_defs)
  have look: "fs_lookup (fs demo_state) (path_resolve (cwd demo_state) ''my-app'') = None"
    "fs_lookup (fs demo_state) (path_resolve (cwd demo_state) ''old'') = Some Dir"
    by (simp_all add: run_defs demo_defs)
  have a: "answer demo_env = Some ''n''"
    by (simp add: demo_env_def)
  note t1 = exit_codes [OF refl refl, of demo_env demo_state "''my-app''"]
  note t2 = exit_codes [OF refl refl, of "demo_env\<lparr>close_code := Some 1\<rparr>" demo_state "''my-app''"]
  note t3 = exit_codes [OF refl refl, of demo_env demo_state "''old''"]
  from t1 v1 look(1) have 1: "exit_code (fst (script_part_001 demo_env (Some ''my-app'') demo_state)) = 0"
    and 4: "exit_code (fst (script_part_001 demo_env None demo_state)) = 1"
    by simp_all
  from t2 v2 look(1) have 2: "exit_code (fst (script_part_001 (demo_env\<lparr>close_code := Some 1\<rparr>)
      (Some ''my-app'') demo_state)) = 0"
    by simp
  from t3 v3 look(2) a have 3: "exit_code (fst (script_part_001 demo_env (Some ''old'') demo_state)) = 1"
    by simp
  from 1 2 3 4 show ?thesis by blast
qed

end
